theory Spec2Isabelle
  imports Complex_Main "HOL-Library.Sublist" "HOL-Library.List_Lexorder" "HOL-Library.Char_ord"
begin

section \<open>The Open Images VRD challenge evaluation driver\<close>

text \<open>
  A shallow embedding of
  \<^verbatim>\<open>research/object_detection/metrics/oid_vrd_challenge_evaluation.py\<close>:
  the two label-map helpers, the function \<^verbatim>\<open>main\<close> and the command-line block.
  The collaborators the file imports (pandas, the protobuf text format, the two VRD
  evaluators, the dictionary builders of the evaluation utilities and the process-wide
  Logger) are parameters of the model, collected in a record. Metric values are Python
  floats in the source and exact reals here; rounding is not modelled.
\<close>

subsection \<open>Python dictionaries\<close>

text \<open>
  A Python dict keeps its keys in insertion order and holds each key once. It is an
  association list here; \<open>d[k] = v\<close> overwrites in place when the key exists and
  appends otherwise.
\<close>

type_synonym ('k, 'v) dict = "('k \<times> 'v) list"

fun dict_set :: "('k, 'v) dict \<Rightarrow> 'k \<Rightarrow> 'v \<Rightarrow> ('k, 'v) dict" where
  "dict_set [] k v = [(k, v)]"
| "dict_set ((k', v') # d) k v =
     (if k' = k then (k, v) # d else (k', v') # dict_set d k v)"

definition dict_get :: "('k, 'v) dict \<Rightarrow> 'k \<Rightarrow> 'v option" where
  "dict_get d k = map_of d k"

definition is_dict :: "('k, 'v) dict \<Rightarrow> bool" where
  "is_dict d \<longleftrightarrow> distinct (map fst d)"

subsection \<open>Exceptions\<close>

datatype error =
    FileNotFoundError string
  | ParseError string
  | KeyError string
  | MalformedInputError string
  | UnknownLabelError string
  | DuplicateImageError
  | EvaluatorError string
  | LoggerError string

definition getitem :: "(string, 'v) dict \<Rightarrow> string \<Rightarrow> error + 'v" where
  "getitem d k = (case dict_get d k of None \<Rightarrow> Inl (KeyError k) | Some v \<Rightarrow> Inr v)"

subsection \<open>Label maps\<close>

text \<open>An item of a \<^verbatim>\<open>StringIntLabelMap\<close> message: its \<^verbatim>\<open>name\<close> and \<^verbatim>\<open>id\<close>.\<close>

record label_map_item =
  item_name :: string
  item_id :: int

text \<open>
  \<^verbatim>\<open>_load_labelmap\<close>: the file is read and merged into a message by the parameter
  \<open>read_items\<close> (which fails when the file is absent or does not parse); the loop over
  the items is the source's.
\<close>

definition load_labelmap ::
  "(string \<Rightarrow> error + label_map_item list) \<Rightarrow> string \<Rightarrow> error + (string, int) dict" where
  "load_labelmap read_items labelmap_path =
     (case read_items labelmap_path of
        Inl e \<Rightarrow> Inl e
      | Inr items \<Rightarrow>
          Inr (fold (\<lambda>item labelmap_dict. dict_set labelmap_dict (item_name item) (item_id item))
                 items []))"

text \<open>\<^verbatim>\<open>_swap_labelmap_dict\<close>: \<^verbatim>\<open>{v:k for k, v in labelmap_dict.items()}\<close>.\<close>

definition swap_labelmap_dict :: "('k, 'v) dict \<Rightarrow> ('v, 'k) dict" where
  "swap_labelmap_dict labelmap_dict =
     fold (\<lambda>(k, v) swapped. dict_set swapped v k) labelmap_dict []"

subsection \<open>Paths\<close>

text \<open>
  \<^verbatim>\<open>os.path.dirname\<close> and \<^verbatim>\<open>os.path.basename\<close> (posixpath) and
  \<^verbatim>\<open>s.split(sep)[0]\<close>, the part of \<open>s\<close> before the first occurrence of \<open>sep\<close>.
\<close>

definition basename :: "string \<Rightarrow> string" where
  "basename p = rev (takeWhile (\<lambda>c. c \<noteq> CHR ''/'') (rev p))"

definition dirname :: "string \<Rightarrow> string" where
  "dirname p =
     (let head = rev (dropWhile (\<lambda>c. c \<noteq> CHR ''/'') (rev p))
      in if head \<noteq> [] \<and> (\<exists>c \<in> set head. c \<noteq> CHR ''/'')
         then rev (dropWhile (\<lambda>c. c = CHR ''/'') (rev head))
         else head)"

fun split_first :: "string \<Rightarrow> string \<Rightarrow> string" where
  "split_first sep [] = []"
| "split_first sep (c # cs) =
     (if take (length sep) (c # cs) = sep then [] else c # split_first sep cs)"

subsection \<open>Data frames\<close>

text \<open>
  A pandas data frame as far as \<^verbatim>\<open>main\<close> looks at it: the column names and the rows,
  each row with its \<^verbatim>\<open>ImageID\<close> cell (\<open>None\<close> for a missing cell) and the rest of
  the row. \<^verbatim>\<open>pd.concat\<close> appends the rows of the second frame to those of the first
  and keeps the columns of both; called with \<^verbatim>\<open>sort=True\<close>, as on line 91, it puts the
  column names in ascending order, strings compared character by character.
  \<^verbatim>\<open>groupby('ImageID')\<close> raises KeyError without that column, drops the rows whose
  cell is missing and yields one group per distinct key, the keys in ascending order,
  each group keeping the frame's row order.
\<close>

record ('i, 'r) data_frame =
  columns :: "string list"
  rows :: "('i option \<times> 'r) list"

definition concat_frames :: "('i, 'r) data_frame \<Rightarrow> ('i, 'r) data_frame \<Rightarrow> ('i, 'r) data_frame" where
  "concat_frames a b =
     \<lparr>columns = sort (remdups (columns a @ columns b)), rows = rows a @ rows b\<rparr>"

definition group_keys :: "('i::linorder, 'r) data_frame \<Rightarrow> 'i list" where
  "group_keys df = sort (remdups (List.map_filter fst (rows df)))"

definition groupby_ImageID ::
  "('i::linorder, 'r) data_frame \<Rightarrow> error + ('i \<times> ('i, 'r) data_frame) list" where
  "groupby_ImageID df =
     (if ''ImageID'' \<in> set (columns df)
      then Inr (map (\<lambda>k. (k, df\<lparr>rows := filter (\<lambda>r. fst r = Some k) (rows df)\<rparr>))
                  (group_keys df))
      else Inl (KeyError ''ImageID''))"

subsection \<open>The collaborators and the observable calls\<close>

datatype protocol = Relation | Phrase

text \<open>
  What \<^verbatim>\<open>main\<close> does to the stateful collaborators, in order: the calls on the
  process-wide Logger and the calls on the two evaluator objects. An ingestion call is
  recorded with the exception it raised, if any; \<^verbatim>\<open>evaluate\<close> with what it returned.
  The last two events are what a program does to a file of its own: opening the file at a
  path for writing, which creates or empties it, and writing a dictionary to it as CSV.
\<close>

datatype ('i, 'g, 'p) event =
    LoggerCreate string string
  | LogMessage string
  | LogValue string real
  | Flush
  | AddGroundTruth protocol 'i 'g "error option"
  | AddDetected protocol 'i 'p "error option"
  | Evaluate protocol "(int, string) dict" "error + (string, real) dict"
  | OpenForWriting string
  | WriteCsv string "(string, real) dict"

record ('i, 'r, 'g, 'p, 's) env =
  logger_load :: "string \<Rightarrow> string \<Rightarrow> error + (string, real list) dict"
  read_csv :: "string \<Rightarrow> error + ('i, 'r) data_frame"
  read_label_map :: "string \<Rightarrow> error + label_map_item list"
  build_groundtruth_vrd_dictionary ::
    "('i, 'r) data_frame \<Rightarrow> (string, int) dict \<Rightarrow> (string, int) dict \<Rightarrow> error + 'g"
  build_predictions_vrd_dictionary ::
    "('i, 'r) data_frame \<Rightarrow> (string, int) dict \<Rightarrow> (string, int) dict \<Rightarrow> error + 'p"
  new_evaluator :: "protocol \<Rightarrow> 's"
  add_single_ground_truth_image_info :: "protocol \<Rightarrow> 's \<Rightarrow> 'i \<Rightarrow> 'g \<Rightarrow> error + 's"
  add_single_detected_image_info :: "protocol \<Rightarrow> 's \<Rightarrow> 'i \<Rightarrow> 'p \<Rightarrow> error + 's"
  evaluate :: "protocol \<Rightarrow> 's \<Rightarrow> (int, string) dict \<Rightarrow> error + (string, real) dict"

text \<open>
  The state a run works on: the two evaluator objects, the \<^verbatim>\<open>values\<close> of the Logger
  and the calls made so far. Before \<^verbatim>\<open>main\<close> runs there is no Logger and no evaluator:
  the fields of the initial world are placeholders until line 86 and lines 98 and 99 set
  them, and its trace is empty.
\<close>

record ('i, 'g, 'p, 's) world =
  relation_evaluator :: 's
  phrase_evaluator :: 's
  logger_values :: "(string, real list) dict"
  trace :: "('i, 'g, 'p) event list"

definition initial_world :: "('i, 'r, 'g, 'p, 's) env \<Rightarrow> ('i, 'g, 'p, 's) world" where
  "initial_world env =
     \<lparr>relation_evaluator = new_evaluator env Relation,
      phrase_evaluator = new_evaluator env Phrase,
      logger_values = [],
      trace = []\<rparr>"

subsection \<open>Actions: state passing with exceptions\<close>

type_synonym ('w, 'a) action = "'w \<Rightarrow> (error + 'a) \<times> 'w"

definition returns :: "'a \<Rightarrow> ('w, 'a) action" where
  "returns x = (\<lambda>w. (Inr x, w))"

definition lift :: "error + 'a \<Rightarrow> ('w, 'a) action" where
  "lift r = (\<lambda>w. (r, w))"

definition bind :: "('w, 'a) action \<Rightarrow> ('a \<Rightarrow> ('w, 'b) action) \<Rightarrow> ('w, 'b) action" where
  "bind m f = (\<lambda>w. case m w of (Inl e, w') \<Rightarrow> (Inl e, w') | (Inr x, w') \<Rightarrow> f x w')"

fun foreach :: "'a list \<Rightarrow> ('a \<Rightarrow> ('w, unit) action) \<Rightarrow> ('w, unit) action" where
  "foreach [] body = returns ()"
| "foreach (x # xs) body = bind (body x) (\<lambda>_. foreach xs body)"

definition emit :: "('i, 'g, 'p) event \<Rightarrow> ('i, 'g, 'p, 's) world \<Rightarrow> ('i, 'g, 'p, 's) world" where
  "emit e w = w\<lparr>trace := trace w @ [e]\<rparr>"

subsection \<open>The Logger\<close>

text \<open>
  \<^verbatim>\<open>Logger(dir_exp, name=name)\<close> creates the process-wide instance and loads the values
  logged before under that directory and name; \<^verbatim>\<open>Logger()(msg)\<close> writes a message;
  \<^verbatim>\<open>log_value\<close> appends to the list kept under the name, creating it when absent;
  \<^verbatim>\<open>flush\<close> writes the values out.
\<close>

definition Logger_create ::
  "('i, 'r, 'g, 'p, 's) env \<Rightarrow> string \<Rightarrow> string \<Rightarrow> (('i, 'g, 'p, 's) world, unit) action" where
  "Logger_create env dir_logs name = (\<lambda>w.
     case logger_load env dir_logs name of
       Inl e \<Rightarrow> (Inl e, emit (LoggerCreate dir_logs name) w)
     | Inr loaded \<Rightarrow> (Inr (), emit (LoggerCreate dir_logs name) (w\<lparr>logger_values := loaded\<rparr>)))"

definition Logger_message :: "string \<Rightarrow> (('i, 'g, 'p, 's) world, unit) action" where
  "Logger_message msg = (\<lambda>w. (Inr (), emit (LogMessage msg) w))"

definition log_value :: "string \<Rightarrow> real \<Rightarrow> (('i, 'g, 'p, 's) world, unit) action" where
  "log_value name v = (\<lambda>w.
     (Inr (),
      emit (LogValue name v)
        (w\<lparr>logger_values :=
             dict_set (logger_values w) name
               ((case dict_get (logger_values w) name of None \<Rightarrow> [] | Some vs \<Rightarrow> vs) @ [v])\<rparr>)))"

definition Logger_values :: "string \<Rightarrow> (('i, 'g, 'p, 's) world, real list) action" where
  "Logger_values name = (\<lambda>w. (getitem (logger_values w) name, w))"

definition Logger_flush :: "(('i, 'g, 'p, 's) world, unit) action" where
  "Logger_flush = (\<lambda>w. (Inr (), emit Flush w))"

subsection \<open>Calls on the evaluators\<close>

definition evaluator :: "protocol \<Rightarrow> ('i, 'g, 'p, 's) world \<Rightarrow> 's" where
  "evaluator pr w = (case pr of Relation \<Rightarrow> relation_evaluator w | Phrase \<Rightarrow> phrase_evaluator w)"

definition set_evaluator ::
  "protocol \<Rightarrow> 's \<Rightarrow> ('i, 'g, 'p, 's) world \<Rightarrow> ('i, 'g, 'p, 's) world" where
  "set_evaluator pr s w =
     (case pr of Relation \<Rightarrow> w\<lparr>relation_evaluator := s\<rparr> | Phrase \<Rightarrow> w\<lparr>phrase_evaluator := s\<rparr>)"

definition call_add_ground_truth ::
  "('i, 'r, 'g, 'p, 's) env \<Rightarrow> protocol \<Rightarrow> 'i \<Rightarrow> 'g \<Rightarrow> (('i, 'g, 'p, 's) world, unit) action" where
  "call_add_ground_truth env pr image_id groundtruth_dictionary = (\<lambda>w.
     case add_single_ground_truth_image_info env pr (evaluator pr w) image_id groundtruth_dictionary of
       Inl e \<Rightarrow> (Inl e, emit (AddGroundTruth pr image_id groundtruth_dictionary (Some e)) w)
     | Inr s \<Rightarrow>
         (Inr (), emit (AddGroundTruth pr image_id groundtruth_dictionary None) (set_evaluator pr s w)))"

definition call_add_detected ::
  "('i, 'r, 'g, 'p, 's) env \<Rightarrow> protocol \<Rightarrow> 'i \<Rightarrow> 'p \<Rightarrow> (('i, 'g, 'p, 's) world, unit) action" where
  "call_add_detected env pr image_id prediction_dictionary = (\<lambda>w.
     case add_single_detected_image_info env pr (evaluator pr w) image_id prediction_dictionary of
       Inl e \<Rightarrow> (Inl e, emit (AddDetected pr image_id prediction_dictionary (Some e)) w)
     | Inr s \<Rightarrow>
         (Inr (), emit (AddDetected pr image_id prediction_dictionary None) (set_evaluator pr s w)))"

text \<open>
  The constructors \<^verbatim>\<open>VRDRelationDetectionEvaluator()\<close> and
  \<^verbatim>\<open>VRDPhraseDetectionEvaluator()\<close> take no argument: each yields a fresh object.
\<close>

definition construct_evaluator ::
  "('i, 'r, 'g, 'p, 's) env \<Rightarrow> protocol \<Rightarrow> (('i, 'g, 'p, 's) world, unit) action" where
  "construct_evaluator env pr = (\<lambda>w. (Inr (), set_evaluator pr (new_evaluator env pr) w))"

definition call_evaluate ::
  "('i, 'r, 'g, 'p, 's) env \<Rightarrow> protocol \<Rightarrow> (int, string) dict \<Rightarrow>
     (('i, 'g, 'p, 's) world, (string, real) dict) action" where
  "call_evaluate env pr relationships = (\<lambda>w.
     let r = evaluate env pr (evaluator pr w) relationships
     in (r, emit (Evaluate pr relationships r) w))"

subsection \<open>The arguments and main\<close>

record parsed_args =
  input_annotations_boxes :: string
  input_annotations_labels :: string
  input_predictions :: string
  input_class_labelmap :: string
  input_relationship_labelmap :: string
  output_metrics :: string

text \<open>The body of the loop over the groundtruth groups (lines 102 to 109).\<close>

definition ingest_groundtruth ::
  "('i, 'r, 'g, 'p, 's) env \<Rightarrow> (string, int) dict \<Rightarrow> (string, int) dict \<Rightarrow>
     'i \<times> ('i, 'r) data_frame \<Rightarrow> (('i, 'g, 'p, 's) world, unit) action" where
  "ingest_groundtruth env class_label_map relationship_label_map groundtruth =
     (case groundtruth of (image_id, image_groundtruth) \<Rightarrow>
        bind (lift (build_groundtruth_vrd_dictionary env image_groundtruth
                      class_label_map relationship_label_map))
          (\<lambda>groundtruth_dictionary.
        bind (call_add_ground_truth env Relation image_id groundtruth_dictionary)
          (\<lambda>_.
        call_add_ground_truth env Phrase image_id groundtruth_dictionary)))"

text \<open>The body of the loop over the prediction groups (lines 113 to 120).\<close>

definition ingest_predictions ::
  "('i, 'r, 'g, 'p, 's) env \<Rightarrow> (string, int) dict \<Rightarrow> (string, int) dict \<Rightarrow>
     'i \<times> ('i, 'r) data_frame \<Rightarrow> (('i, 'g, 'p, 's) world, unit) action" where
  "ingest_predictions env class_label_map relationship_label_map prediction_data =
     (case prediction_data of (image_id, image_predictions) \<Rightarrow>
        bind (lift (build_predictions_vrd_dictionary env image_predictions
                      class_label_map relationship_label_map))
          (\<lambda>prediction_dictionary.
        bind (call_add_detected env Relation image_id prediction_dictionary)
          (\<lambda>_.
        call_add_detected env Phrase image_id prediction_dictionary)))"

text \<open>The loop \<^verbatim>\<open>for k,v in metrics.items(): Logger().log_value('eval_epoch.{}'.format(k), v)\<close>.\<close>

definition log_metrics :: "(string, real) dict \<Rightarrow> (('i, 'g, 'p, 's) world, unit) action" where
  "log_metrics metrics = foreach metrics (\<lambda>(k, v). log_value (''eval_epoch.'' @ k) v)"

definition main ::
  "('i::linorder, 'r, 'g, 'p, 's) env \<Rightarrow> parsed_args \<Rightarrow> (('i, 'g, 'p, 's) world, unit) action" where
  "main env parsed_args =
     (let dir_exp = dirname (output_metrics parsed_args);
          name = split_first ''.json'' (basename (output_metrics parsed_args))
      in
      bind (Logger_create env dir_exp name) (\<lambda>_.
      bind (Logger_message ''Begin evaluation'') (\<lambda>_.
      bind (lift (read_csv env (input_annotations_boxes parsed_args))) (\<lambda>all_box_annotations.
      bind (lift (read_csv env (input_annotations_labels parsed_args))) (\<lambda>all_label_annotations.
      let all_annotations = concat_frames all_box_annotations all_label_annotations in
      bind (lift (load_labelmap (read_label_map env) (input_class_labelmap parsed_args)))
        (\<lambda>class_label_map.
      bind (lift (load_labelmap (read_label_map env) (input_relationship_labelmap parsed_args)))
        (\<lambda>relationship_label_map.
      bind (construct_evaluator env Relation) (\<lambda>_.
      bind (construct_evaluator env Phrase) (\<lambda>_.
      bind (lift (groupby_ImageID all_annotations)) (\<lambda>groundtruth_groups.
      bind (foreach groundtruth_groups
              (ingest_groundtruth env class_label_map relationship_label_map)) (\<lambda>_.
      bind (lift (read_csv env (input_predictions parsed_args))) (\<lambda>all_predictions.
      bind (lift (groupby_ImageID all_predictions)) (\<lambda>prediction_groups.
      bind (foreach prediction_groups
              (ingest_predictions env class_label_map relationship_label_map)) (\<lambda>_.
      bind (call_evaluate env Relation (swap_labelmap_dict relationship_label_map))
        (\<lambda>relation_metrics.
      bind (call_evaluate env Phrase (swap_labelmap_dict relationship_label_map))
        (\<lambda>phrase_metrics.
      bind (log_metrics relation_metrics) (\<lambda>_.
      bind (log_metrics phrase_metrics) (\<lambda>_.
      bind (lift (getitem relation_metrics ''VRDMetric_Relationships_mAP@0.5IOU'')) (\<lambda>m1.
      let score = m1 * 0.4 in
      bind (lift (getitem relation_metrics ''VRDMetric_Relationships_Recall@50@0.5IOU'')) (\<lambda>m2.
      let score = score + m2 * 0.2 in
      bind (lift (getitem phrase_metrics ''VRDMetric_Phrases_mAP@0.5IOU'')) (\<lambda>m3.
      let score = score + m3 * 0.4 in
      bind (log_value ''eval_epoch.score'' score) (\<lambda>_.
      bind (Logger_values ''eval_epoch.score'') (\<lambda>scores.
      let epoch_id = int (length scores) - 1 in
      bind (log_value ''eval_epoch.epoch'' (of_int epoch_id)) (\<lambda>_.
      bind Logger_flush (\<lambda>_.
      Logger_message ''End evaluation'')))))))))))))))))))))))))"

subsection \<open>The metrics file\<close>

text \<open>
  Lines 143 to 145 of the source are a comment. The statements in it would open the file
  named by \<^verbatim>\<open>--output_metrics\<close> for writing and write the two metric dictionaries to
  it with \<^verbatim>\<open>io_utils.write_csv\<close>. This is what they would do; \<^verbatim>\<open>main\<close> above
  does not contain them.
\<close>

definition write_metrics_file ::
  "parsed_args \<Rightarrow> (string, real) dict \<Rightarrow> (string, real) dict \<Rightarrow>
     (('i, 'g, 'p, 's) world, unit) action" where
  "write_metrics_file parsed_args relation_metrics phrase_metrics = (\<lambda>w.
     (Inr (),
      emit (WriteCsv (output_metrics parsed_args) phrase_metrics)
        (emit (WriteCsv (output_metrics parsed_args) relation_metrics)
           (emit (OpenForWriting (output_metrics parsed_args)) w))))"

subsection \<open>The command line\<close>











subsection \<open>Runs from the initial world\<close>

definition outcome :: "('i::linorder, 'r, 'g, 'p, 's) env \<Rightarrow> parsed_args \<Rightarrow> error + unit" where
  "outcome env parsed_args = fst (main env parsed_args (initial_world env))"

definition run_trace ::
  "('i::linorder, 'r, 'g, 'p, 's) env \<Rightarrow> parsed_args \<Rightarrow> ('i, 'g, 'p) event list" where
  "run_trace env parsed_args = trace (snd (main env parsed_args (initial_world env)))"

subsection \<open>Reading a trace\<close>

datatype call_kind = LoggerCall | GroundTruthCall | DetectedCall | EvaluateCall | FileCall

definition kind :: "('i, 'g, 'p) event \<Rightarrow> call_kind" where
  "kind e =
     (case e of
        AddGroundTruth pr i g r \<Rightarrow> GroundTruthCall
      | AddDetected pr i p r \<Rightarrow> DetectedCall
      | Evaluate pr rel r \<Rightarrow> EvaluateCall
      | OpenForWriting path \<Rightarrow> FileCall
      | WriteCsv path metrics \<Rightarrow> FileCall
      | _ \<Rightarrow> LoggerCall)"

text \<open>Every \<open>P\<close> call comes before every \<open>Q\<close> call: no \<open>P\<close> call at or after a \<open>Q\<close> call.\<close>

definition all_before :: "('e \<Rightarrow> bool) \<Rightarrow> ('e \<Rightarrow> bool) \<Rightarrow> 'e list \<Rightarrow> bool" where
  "all_before P Q tr \<longleftrightarrow> \<not> (\<exists>i j. j \<le> i \<and> i < length tr \<and> P (tr ! i) \<and> Q (tr ! j))"

text \<open>What an evaluator is given by an ingestion call: the image id and the dictionary.\<close>

datatype ('i, 'g, 'p) ingestion_call = GroundTruthInfo 'i 'g | DetectedInfo 'i 'p

definition ingestion :: "protocol \<Rightarrow> ('i, 'g, 'p) event list \<Rightarrow> ('i, 'g, 'p) ingestion_call list" where
  "ingestion pr tr =
     concat (map (\<lambda>e. case e of
                        AddGroundTruth pr' i g r \<Rightarrow> if pr' = pr then [GroundTruthInfo i g] else []
                      | AddDetected pr' i p r \<Rightarrow> if pr' = pr then [DetectedInfo i p] else []
                      | _ \<Rightarrow> []) tr)"

definition groundtruth_ids :: "protocol \<Rightarrow> ('i, 'g, 'p) event list \<Rightarrow> 'i list" where
  "groundtruth_ids pr tr =
     concat (map (\<lambda>e. case e of
                        AddGroundTruth pr' i g r \<Rightarrow> if pr' = pr then [i] else []
                      | _ \<Rightarrow> []) tr)"

definition evaluations ::
  "protocol \<Rightarrow> ('i, 'g, 'p) event list \<Rightarrow> ((int, string) dict \<times> (error + (string, real) dict)) list" where
  "evaluations pr tr =
     concat (map (\<lambda>e. case e of
                        Evaluate pr' rel r \<Rightarrow> if pr' = pr then [(rel, r)] else []
                      | _ \<Rightarrow> []) tr)"

definition logged :: "string \<Rightarrow> ('i, 'g, 'p) event list \<Rightarrow> real list" where
  "logged name tr =
     concat (map (\<lambda>e. case e of LogValue n v \<Rightarrow> if n = name then [v] else [] | _ \<Rightarrow> []) tr)"

text \<open>An ingestion call on the evaluator of protocol \<open>pr\<close> that raised.\<close>

definition raised :: "protocol \<Rightarrow> ('i, 'g, 'p) event \<Rightarrow> bool" where
  "raised pr e =
     (case e of
        AddGroundTruth pr' i g r \<Rightarrow> pr' = pr \<and> r \<noteq> None
      | AddDetected pr' i p r \<Rightarrow> pr' = pr \<and> r \<noteq> None
      | _ \<Rightarrow> False)"

definition metric_events :: "(string, real) dict \<Rightarrow> ('i, 'g, 'p) event list" where
  "metric_events metrics = map (\<lambda>(k, v). LogValue (''eval_epoch.'' @ k) v) metrics"

subsection \<open>The phases of main\<close>

text \<open>
  The statements of \<^verbatim>\<open>main\<close> grouped for the proofs: up to the grouping of the
  annotations, the reading of the predictions, and everything after the two
  \<^verbatim>\<open>evaluate\<close> calls. \<open>bind_run\<close> continues from the result of a first action.
\<close>

definition bind_run :: "(error + 'a) \<times> 'w \<Rightarrow> ('a \<Rightarrow> ('w, 'b) action) \<Rightarrow> (error + 'b) \<times> 'w" where
  "bind_run r f = (case r of (Inl e, w') \<Rightarrow> (Inl e, w') | (Inr x, w') \<Rightarrow> f x w')"

definition prologue ::
  "('i::linorder, 'r, 'g, 'p, 's) env \<Rightarrow> parsed_args \<Rightarrow>
     (('i, 'g, 'p, 's) world,
      (string, int) dict \<times> (string, int) dict \<times> ('i \<times> ('i, 'r) data_frame) list) action" where
  "prologue env parsed_args =
      bind (Logger_create env (dirname (output_metrics parsed_args))
              (split_first ''.json'' (basename (output_metrics parsed_args)))) (\<lambda>_.
      bind (Logger_message ''Begin evaluation'') (\<lambda>_.
      bind (lift (read_csv env (input_annotations_boxes parsed_args))) (\<lambda>all_box_annotations.
      bind (lift (read_csv env (input_annotations_labels parsed_args))) (\<lambda>all_label_annotations.
      bind (lift (load_labelmap (read_label_map env) (input_class_labelmap parsed_args)))
        (\<lambda>class_label_map.
      bind (lift (load_labelmap (read_label_map env) (input_relationship_labelmap parsed_args)))
        (\<lambda>relationship_label_map.
      bind (construct_evaluator env Relation) (\<lambda>_.
      bind (construct_evaluator env Phrase) (\<lambda>_.
      bind (lift (groupby_ImageID (concat_frames all_box_annotations all_label_annotations)))
        (\<lambda>groundtruth_groups.
      returns (class_label_map, relationship_label_map, groundtruth_groups))))))))))"

definition load_predictions ::
  "('i::linorder, 'r, 'g, 'p, 's) env \<Rightarrow> parsed_args \<Rightarrow>
     (('i, 'g, 'p, 's) world, ('i \<times> ('i, 'r) data_frame) list) action" where
  "load_predictions env parsed_args =
      bind (lift (read_csv env (input_predictions parsed_args))) (\<lambda>all_predictions.
      lift (groupby_ImageID all_predictions))"

definition report ::
  "(string, real) dict \<Rightarrow> (string, real) dict \<Rightarrow> (('i, 'g, 'p, 's) world, unit) action" where
  "report relation_metrics phrase_metrics =
      bind (log_metrics relation_metrics) (\<lambda>_.
      bind (log_metrics phrase_metrics) (\<lambda>_.
      bind (lift (getitem relation_metrics ''VRDMetric_Relationships_mAP@0.5IOU'')) (\<lambda>m1.
      bind (lift (getitem relation_metrics ''VRDMetric_Relationships_Recall@50@0.5IOU'')) (\<lambda>m2.
      bind (lift (getitem phrase_metrics ''VRDMetric_Phrases_mAP@0.5IOU'')) (\<lambda>m3.
      bind (log_value ''eval_epoch.score'' (m1 * 0.4 + m2 * 0.2 + m3 * 0.4)) (\<lambda>_.
      bind (Logger_values ''eval_epoch.score'') (\<lambda>scores.
      bind (log_value ''eval_epoch.epoch'' (of_int (int (length scores) - 1))) (\<lambda>_.
      bind Logger_flush (\<lambda>_.
      Logger_message ''End evaluation'')))))))))"

text \<open>What the two loops and the two \<^verbatim>\<open>evaluate\<close> calls may add to a trace.\<close>

definition groundtruth_segment ::
  "('i \<Rightarrow> 'g \<Rightarrow> bool) \<Rightarrow> 'i list \<Rightarrow> (error + unit) \<Rightarrow> ('i, 'g, 'p) event list \<Rightarrow> bool" where
  "groundtruth_segment built keys res gs \<longleftrightarrow>
     (\<forall>e \<in> set gs. kind e = GroundTruthCall)
     \<and> (\<forall>pr i g r. AddGroundTruth pr i g r \<in> set gs \<longrightarrow> built i g)
     \<and> prefix (groundtruth_ids Relation gs) keys
     \<and> prefix (groundtruth_ids Phrase gs) keys
     \<and> ((\<forall>e \<in> set gs. \<not> raised Relation e) \<longrightarrow> ingestion Phrase gs = ingestion Relation gs)
     \<and> (res = Inr () \<longrightarrow>
          groundtruth_ids Relation gs = keys \<and> groundtruth_ids Phrase gs = keys
          \<and> (\<forall>e \<in> set gs. \<not> raised Relation e \<and> \<not> raised Phrase e))
     \<and> ((\<exists>e \<in> set gs. raised Relation e) \<longrightarrow>
          (\<exists>c. ingestion Relation gs = ingestion Phrase gs @ [c]))"

definition detected_segment ::
  "('i \<Rightarrow> 'p \<Rightarrow> bool) \<Rightarrow> (error + unit) \<Rightarrow> ('i, 'g, 'p) event list \<Rightarrow> bool" where
  "detected_segment built res ds \<longleftrightarrow>
     (\<forall>e \<in> set ds. kind e = DetectedCall)
     \<and> (\<forall>pr i p r. AddDetected pr i p r \<in> set ds \<longrightarrow> built i p)
     \<and> ((\<forall>e \<in> set ds. \<not> raised Relation e) \<longrightarrow> ingestion Phrase ds = ingestion Relation ds)
     \<and> (res = Inr () \<longrightarrow> (\<forall>e \<in> set ds. \<not> raised Relation e \<and> \<not> raised Phrase e))
     \<and> ((\<exists>e \<in> set ds. raised Relation e) \<longrightarrow>
          (\<exists>c. ingestion Relation ds = ingestion Phrase ds @ [c]))"

definition evaluate_segment ::
  "('i, 'r, 'g, 'p, 's) env \<Rightarrow> parsed_args \<Rightarrow> ('i, 'g, 'p) event list \<Rightarrow> bool" where
  "evaluate_segment env a ev \<longleftrightarrow>
     ev = [] \<or>
     (\<exists>r r1. load_labelmap (read_label_map env) (input_relationship_labelmap a) = Inr r
        \<and> (ev = [Evaluate Relation (swap_labelmap_dict r) r1]
           \<or> (\<exists>r2. ev = [Evaluate Relation (swap_labelmap_dict r) r1,
                          Evaluate Phrase (swap_labelmap_dict r) r2])))"

definition logger_create_event :: "parsed_args \<Rightarrow> ('i, 'g, 'p) event" where
  "logger_create_event a =
     LoggerCreate (dirname (output_metrics a)) (split_first ''.json'' (basename (output_metrics a)))"

definition built_groundtruth ::
  "('i, 'r, 'g, 'p, 's) env \<Rightarrow> (string, int) dict \<Rightarrow> (string, int) dict \<Rightarrow>
     ('i \<times> ('i, 'r) data_frame) list \<Rightarrow> 'i \<Rightarrow> 'g \<Rightarrow> bool" where
  "built_groundtruth env c r groups i g \<longleftrightarrow>
     (\<exists>fr. (i, fr) \<in> set groups \<and> build_groundtruth_vrd_dictionary env fr c r = Inr g)"

definition built_predictions ::
  "('i, 'r, 'g, 'p, 's) env \<Rightarrow> (string, int) dict \<Rightarrow> (string, int) dict \<Rightarrow>
     ('i \<times> ('i, 'r) data_frame) list \<Rightarrow> 'i \<Rightarrow> 'p \<Rightarrow> bool" where
  "built_predictions env c r groups i p \<longleftrightarrow>
     (\<exists>fr. (i, fr) \<in> set groups \<and> build_predictions_vrd_dictionary env fr c r = Inr p)"

text \<open>
  The groundtruth loop as \<^verbatim>\<open>main\<close> runs it: from fresh evaluators, over groups with
  pairwise distinct keys.
\<close>

definition groundtruth_phase ::
  "('i::linorder, 'r, 'g, 'p, 's) env \<Rightarrow> parsed_args \<Rightarrow> ('i, 'g, 'p) event list \<Rightarrow> bool" where
  "groundtruth_phase env a gs \<longleftrightarrow>
     gs = [] \<or>
     (\<exists>c r groups w1 res w2.
        foreach groups (ingest_groundtruth env c r) w1 = (res, w2)
      \<and> trace w2 = trace w1 @ gs
      \<and> relation_evaluator w1 = new_evaluator env Relation
      \<and> phrase_evaluator w1 = new_evaluator env Phrase
      \<and> distinct (map fst groups))"

definition run_shape ::
  "('i::linorder, 'r, 'g, 'p, 's) env \<Rightarrow> parsed_args \<Rightarrow> ('i, 'g, 'p) event list \<Rightarrow> bool" where
  "run_shape env a tr \<longleftrightarrow>
     (\<exists>pre gs ds ev post keys gres dres gbuilt dbuilt.
        tr = pre @ gs @ ds @ ev @ post
      \<and> (pre = [logger_create_event a]
         \<or> pre = [logger_create_event a, LogMessage ''Begin evaluation''])
      \<and> distinct keys \<and> groundtruth_segment gbuilt keys gres gs
      \<and> groundtruth_phase env a gs
      \<and> detected_segment dbuilt dres ds
      \<and> (ds = [] \<or> gres = Inr ())
      \<and> evaluate_segment env a ev
      \<and> (\<forall>e \<in> set post. kind e = LoggerCall) \<and> (\<forall>d n. LoggerCreate d n \<notin> set post))"

subsection \<open>The duplicate check of groundtruth ingestion\<close>

text \<open>
  Modelled from the spec: the evaluators are defined in
  \<^verbatim>\<open>object_detection/utils/vrd_evaluation.py\<close>, which is not among the sources. The spec
  says of groundtruth ingestion that it may be called once per image id and that calling it
  twice for the same image id is a caller error, DuplicateImageError. An evaluator with
  that check keeps the image ids it was given groundtruth for and raises before doing
  anything else when the id is among them; ingesting detections leaves the ids alone.
\<close>

definition with_duplicate_check ::
  "('i, 'r, 'g, 'p, 's) env \<Rightarrow> ('i, 'r, 'g, 'p, 'i list \<times> 's) env" where
  "with_duplicate_check env =
     \<lparr>logger_load = logger_load env,
      read_csv = read_csv env,
      read_label_map = read_label_map env,
      build_groundtruth_vrd_dictionary = build_groundtruth_vrd_dictionary env,
      build_predictions_vrd_dictionary = build_predictions_vrd_dictionary env,
      new_evaluator = (\<lambda>pr. ([], new_evaluator env pr)),
      add_single_ground_truth_image_info = (\<lambda>pr s image_id g.
        if image_id \<in> set (fst s) then Inl DuplicateImageError
        else (case add_single_ground_truth_image_info env pr (snd s) image_id g of
                Inl e \<Rightarrow> Inl e
              | Inr s' \<Rightarrow> Inr (image_id # fst s, s'))),
      add_single_detected_image_info = (\<lambda>pr s image_id p.
        case add_single_detected_image_info env pr (snd s) image_id p of
          Inl e \<Rightarrow> Inl e
        | Inr s' \<Rightarrow> Inr (fst s, s')),
      evaluate = (\<lambda>pr s. evaluate env pr (snd s))\<rparr>"

subsection \<open>Comparing two runs\<close>

text \<open>
  A trace without its bookkeeping: the creation of the Logger, which names where the log
  goes, and the epoch counter, which counts the scores the log of that name already holds.
\<close>

definition evaluation_events :: "('i, 'g, 'p) event list \<Rightarrow> ('i, 'g, 'p) event list" where
  "evaluation_events tr =
     filter (\<lambda>e. case e of
                   LoggerCreate d n \<Rightarrow> False
                 | LogValue n v \<Rightarrow> n \<noteq> ''eval_epoch.epoch''
                 | _ \<Rightarrow> True) tr"

definition same_evaluation :: "('i, 'g, 'p, 's) world \<Rightarrow> ('i, 'g, 'p, 's) world \<Rightarrow> bool" where
  "same_evaluation w1 w2 \<longleftrightarrow>
     relation_evaluator w1 = relation_evaluator w2
     \<and> phrase_evaluator w1 = phrase_evaluator w2
     \<and> evaluation_events (trace w1) = evaluation_events (trace w2)"

text \<open>Two actions that keep two runs in step: same result, worlds still alike.\<close>

definition in_step ::
  "(('i, 'g, 'p, 's) world, 'a) action \<Rightarrow> (('i, 'g, 'p, 's) world, 'a) action \<Rightarrow> bool" where
  "in_step m1 m2 \<longleftrightarrow>
     (\<forall>w1 w2. same_evaluation w1 w2 \<longrightarrow>
        fst (m1 w1) = fst (m2 w2) \<and> same_evaluation (snd (m1 w1)) (snd (m2 w2)))"

subsection \<open>A small installation for concrete runs\<close>

text \<open>
  Image ids are numbers, a row carries one number, and a dictionary built for an image is
  the list of the numbers of its rows. The evaluator of either protocol keeps the
  groundtruth and the detections it was given; its metrics are 1 when every image's
  detections equal its groundtruth and 0 otherwise. Four files exist.
\<close>

definition demo_metrics :: "protocol \<Rightarrow> real \<Rightarrow> (string, real) dict" where
  "demo_metrics pr x =
     (case pr of
        Relation \<Rightarrow> [(''VRDMetric_Relationships_mAP@0.5IOU'', x),
                     (''VRDMetric_Relationships_Recall@50@0.5IOU'', x)]
      | Phrase \<Rightarrow> [(''VRDMetric_Phrases_mAP@0.5IOU'', x)])"

definition demo_env ::
  "(nat, nat, nat list, nat list, (nat \<times> nat list) list \<times> (nat \<times> nat list) list) env" where
  "demo_env =
     \<lparr>logger_load = (\<lambda>d n. Inr []),
      read_csv = (\<lambda>path.
        if path = ''boxes.csv'' then
          Inr \<lparr>columns = [''ImageID'', ''Box''], rows = [(Some 7, 70), (Some 4, 40), (Some 7, 71)]\<rparr>
        else if path = ''labels.csv'' then
          Inr \<lparr>columns = [''ImageID'', ''Label''], rows = [(Some 4, 41)]\<rparr>
        else if path = ''predictions.csv'' then
          Inr \<lparr>columns = [''ImageID'', ''Box''],
               rows = [(Some 4, 40), (Some 7, 70), (Some 7, 71), (Some 4, 41)]\<rparr>
        else Inl (FileNotFoundError path)),
      read_label_map = (\<lambda>path.
        if path = ''labelmap.pbtxt'' then
          Inr [\<lparr>item_name = ''at'', item_id = 1\<rparr>, \<lparr>item_name = ''on'', item_id = 2\<rparr>]
        else Inl (FileNotFoundError path)),
      build_groundtruth_vrd_dictionary = (\<lambda>df c r. Inr (map snd (rows df))),
      build_predictions_vrd_dictionary = (\<lambda>df c r. Inr (map snd (rows df))),
      new_evaluator = (\<lambda>pr. ([], [])),
      add_single_ground_truth_image_info = (\<lambda>pr s i g. Inr (fst s @ [(i, g)], snd s)),
      add_single_detected_image_info = (\<lambda>pr s i p. Inr (fst s, snd s @ [(i, p)])),
      evaluate = (\<lambda>pr s rel. Inr (demo_metrics pr (if fst s = snd s then 1 else 0)))\<rparr>"

definition demo_args :: parsed_args where
  "demo_args =
     \<lparr>input_annotations_boxes = ''boxes.csv'',
      input_annotations_labels = ''labels.csv'',
      input_predictions = ''predictions.csv'',
      input_class_labelmap = ''labelmap.pbtxt'',
      input_relationship_labelmap = ''labelmap.pbtxt'',
      output_metrics = ''out/run.json''\<rparr>"


definition second_demo_env ::
  "(nat, nat, nat list, nat list, (nat \<times> nat list) list \<times> (nat \<times> nat list) list) env" where
  "second_demo_env = demo_env\<lparr>logger_load := (\<lambda>d n. Inr [(''eval_epoch.score'', [1 / 2])])\<rparr>"

definition second_demo_args :: parsed_args where
  "second_demo_args = demo_args\<lparr>output_metrics := ''elsewhere/again.json''\<rparr>"


section \<open>Properties\<close>

subsection \<open>Dictionaries and label maps\<close>

lemma dict_set_fresh: "k \<notin> fst ` set d \<Longrightarrow> dict_set d k v = d @ [(k, v)]"
  by (induction d) auto

lemma fold_swap_distinct:
  "distinct (map snd d) \<Longrightarrow> snd ` set d \<inter> fst ` set acc = {} \<Longrightarrow>
   fold (\<lambda>(k, v) swapped. dict_set swapped v k) d acc = acc @ map prod.swap d"
proof (induction d arbitrary: acc)
  case Nil
  then show ?case by simp
next
  case (Cons kv d)
  obtain k v where kv: "kv = (k, v)" by (cases kv)
  from Cons.prems kv have fresh: "v \<notin> fst ` set acc" by auto
  have step: "dict_set acc v k = acc @ [(v, k)]"
    using fresh by (rule dict_set_fresh)
  have "snd ` set d \<inter> fst ` set (acc @ [(v, k)]) = {}"
    using Cons.prems kv by (auto simp: image_iff)
  with Cons.IH [of "acc @ [(v, k)]"] Cons.prems kv step show ?case
    by simp
qed

lemma swap_distinct: "distinct (map snd d) \<Longrightarrow> swap_labelmap_dict d = map prod.swap d"
  using fold_swap_distinct [of d "[]"] by (simp add: swap_labelmap_dict_def)

lemma swap_involution:
  "is_dict d \<Longrightarrow> distinct (map snd d) \<Longrightarrow> swap_labelmap_dict (swap_labelmap_dict d) = d"
proof -
  assume k: "is_dict d" and v: "distinct (map snd d)"
  have "map snd (map prod.swap d) = map fst d" by (induction d) auto
  with k have "distinct (map snd (map prod.swap d))" by (simp only: is_dict_def)
  then have "swap_labelmap_dict (map prod.swap d) = map prod.swap (map prod.swap d)"
    by (rule swap_distinct)
  also have "\<dots> = d" by (induction d) auto
  finally show ?thesis using v by (simp add: swap_distinct)
qed

lemma map_of_dict_set: "map_of (dict_set d k v) = (map_of d)(k \<mapsto> v)"
  by (induction d) (auto simp: fun_eq_iff)

lemma keys_dict_set: "fst ` set (dict_set d k v) = insert k (fst ` set d)"
  by (simp add: dom_map_of_conv_image_fst [symmetric] map_of_dict_set)

lemma distinct_dict_set: "distinct (map fst d) \<Longrightarrow> distinct (map fst (dict_set d k v))"
  by (induction d) (auto simp: keys_dict_set)

lemma map_of_fold_swap:
  "map_of (fold (\<lambda>(k, v) swapped. dict_set swapped v k) d acc) = map_of acc ++ map_of (rev (map prod.swap d))"
proof (induction d arbitrary: acc)
  case Nil
  then show ?case by simp
next
  case (Cons kv d)
  obtain k v where kv: "kv = (k, v)" by (cases kv)
  show ?case
    by (simp add: kv Cons.IH map_of_dict_set map_add_upd_left fun_eq_iff map_add_def split: option.splits)
qed

lemma swap_lookup: "dict_get (swap_labelmap_dict d) v = map_of (rev (map prod.swap d)) v"
  by (simp add: swap_labelmap_dict_def dict_get_def map_of_fold_swap)

lemma swap_is_dict: "is_dict (swap_labelmap_dict d)"
proof -
  have "distinct (map fst acc) \<Longrightarrow> distinct (map fst (fold (\<lambda>(k, v) swapped. dict_set swapped v k) d acc))" for acc
    by (induction d arbitrary: acc) (auto simp: distinct_dict_set)
  from this [of "[]"] show ?thesis by (simp add: is_dict_def swap_labelmap_dict_def)
qed

lemma map_of_fold_items:
  "map_of (fold (\<lambda>item d. dict_set d (item_name item) (item_id item)) items acc)
     = map_of acc ++ map_of (rev (map (\<lambda>it. (item_name it, item_id it)) items))"
  by (induction items arbitrary: acc)
     (simp_all add: map_of_dict_set fun_eq_iff map_add_def split: option.splits)

lemma fold_items_distinct:
  "distinct (map item_name items) \<Longrightarrow> item_name ` set items \<inter> fst ` set acc = {} \<Longrightarrow>
   fold (\<lambda>item d. dict_set d (item_name item) (item_id item)) items acc
     = acc @ map (\<lambda>it. (item_name it, item_id it)) items"
proof (induction items arbitrary: acc)
  case Nil
  then show ?case by simp
next
  case (Cons it items)
  have step: "dict_set acc (item_name it) (item_id it) = acc @ [(item_name it, item_id it)]"
    using Cons.prems by (intro dict_set_fresh) auto
  have "item_name ` set items \<inter> fst ` set (acc @ [(item_name it, item_id it)]) = {}"
    using Cons.prems by (auto simp: image_iff)
  with Cons.IH [of "acc @ [(item_name it, item_id it)]"] Cons.prems step show ?case by simp
qed

lemma keys_fold_items:
  "fst ` set (fold (\<lambda>item d. dict_set d (item_name item) (item_id item)) items acc)
     = fst ` set acc \<union> item_name ` set items"
  by (induction items arbitrary: acc) (auto simp: keys_dict_set)

lemma distinct_fold_items:
  "distinct (map fst acc) \<Longrightarrow> distinct (map fst (fold (\<lambda>item d. dict_set d (item_name item) (item_id item)) items acc))"
  by (induction items arbitrary: acc) (auto simp: distinct_dict_set)

text \<open>
  C9: on a dictionary whose values are pairwise distinct, swapping twice gives the
  dictionary back, entry for entry. In general the swap keeps, for a value, the key
  enumerated last, and it never fails: on \<open>{a: 1, b: 1}\<close> it yields \<open>{1: b}\<close>, and
  swapping again yields \<open>{b: 1}\<close>, so the key \<open>a\<close> is lost.
\<close>

theorem swap_labelmap_dict_roundtrip:
  "(is_dict d \<and> distinct (map snd d) \<longrightarrow> swap_labelmap_dict (swap_labelmap_dict d) = d)
   \<and> dict_get (swap_labelmap_dict d') v = map_of (rev (map prod.swap d')) v
   \<and> is_dict (swap_labelmap_dict d')
   \<and> is_dict [(''a'', 1::int), (''b'', 1)]
   \<and> swap_labelmap_dict [(''a'', 1::int), (''b'', 1)] = [(1, ''b'')]
   \<and> swap_labelmap_dict (swap_labelmap_dict [(''a'', 1::int), (''b'', 1)]) = [(''b'', 1)]"
proof (intro conjI impI)
  assume "is_dict d \<and> distinct (map snd d)"
  then show "swap_labelmap_dict (swap_labelmap_dict d) = d"
    by (simp add: swap_involution)
next
  show "dict_get (swap_labelmap_dict d') v = map_of (rev (map prod.swap d')) v"
    by (rule swap_lookup)
next
  show "is_dict (swap_labelmap_dict d')"
    by (rule swap_is_dict)
qed (simp_all add: is_dict_def swap_labelmap_dict_def)

theorem swap_labelmap_dict_roundtrip_witness:
  "is_dict [(''at'', 1::int), (''on'', 2)] \<and> distinct (map snd [(''at'', 1::int), (''on'', 2)])
   \<and> swap_labelmap_dict (swap_labelmap_dict [(''at'', 1::int), (''on'', 2)]) = [(''at'', 1), (''on'', 2)]"
proof -
  have h: "is_dict [(''at'', 1::int), (''on'', 2)] \<and> distinct (map snd [(''at'', 1::int), (''on'', 2)])"
    by (simp add: is_dict_def)
  have "swap_labelmap_dict (swap_labelmap_dict [(''at'', 1::int), (''on'', 2)]) = [(''at'', 1), (''on'', 2)]"
    by (rule swap_labelmap_dict_roundtrip [THEN conjunct1, THEN mp, OF h])
  with h show ?thesis by blast
qed

subsection \<open>Actions\<close>

lemma bind_assoc: "bind (bind m f) g = bind m (\<lambda>x. bind (f x) g)"
  by (auto simp: bind_def fun_eq_iff split: sum.splits prod.splits)

lemma returns_bind: "bind (returns x) f = f x"
  by (simp add: bind_def returns_def)

lemma bind_cases:
  assumes "bind m f w = (r, w'')"
  obtains (fail) e where "m w = (Inl e, w'')" "r = Inl e"
        | (ok) x w' where "m w = (Inr x, w')" "f x w' = (r, w'')"
  using assms by (auto simp: bind_def split: sum.splits prod.splits)

lemma bind_ok: "m w = (Inr x, w') \<Longrightarrow> bind m f w = f x w'"
  by (simp add: bind_def)

lemma bind_apply: "bind m f w = bind_run (m w) f"
  by (simp add: bind_def bind_run_def)

lemma bind_run_simps: "bind_run (Inl e, w') f = (Inl e, w')" "bind_run (Inr x, w') f = f x w'"
  by (simp_all add: bind_run_def)

lemma bind_run_cong: "r = r' \<Longrightarrow> bind_run r f = bind_run r' f"
  by simp

lemma bind_cong: "w = w' \<Longrightarrow> bind m f w = bind m f w'"
  by simp

lemma main_phases:
  "main env parsed_args =
     bind (prologue env parsed_args) (\<lambda>(class_label_map, relationship_label_map, groundtruth_groups).
     bind (foreach groundtruth_groups
             (ingest_groundtruth env class_label_map relationship_label_map)) (\<lambda>_.
     bind (load_predictions env parsed_args) (\<lambda>prediction_groups.
     bind (foreach prediction_groups
             (ingest_predictions env class_label_map relationship_label_map)) (\<lambda>_.
     bind (call_evaluate env Relation (swap_labelmap_dict relationship_label_map))
       (\<lambda>relation_metrics.
     bind (call_evaluate env Phrase (swap_labelmap_dict relationship_label_map))
       (\<lambda>phrase_metrics.
     report relation_metrics phrase_metrics))))))"
  unfolding main_def prologue_def load_predictions_def report_def Let_def bind_assoc returns_bind prod.case
  by (rule refl)

subsection \<open>Traces\<close>

lemma all_before_iff:
  "all_before P Q tr \<longleftrightarrow> (\<forall>i < length tr. \<forall>j < length tr. P (tr ! i) \<and> Q (tr ! j) \<longrightarrow> i < j)"
  unfolding all_before_def
proof
  assume h: "\<not> (\<exists>i j. j \<le> i \<and> i < length tr \<and> P (tr ! i) \<and> Q (tr ! j))"
  show "\<forall>i < length tr. \<forall>j < length tr. P (tr ! i) \<and> Q (tr ! j) \<longrightarrow> i < j"
  proof (intro allI impI)
    fix i j assume "i < length tr" "j < length tr" "P (tr ! i) \<and> Q (tr ! j)"
    with h show "i < j" by (meson not_le)
  qed
next
  assume h: "\<forall>i < length tr. \<forall>j < length tr. P (tr ! i) \<and> Q (tr ! j) \<longrightarrow> i < j"
  show "\<not> (\<exists>i j. j \<le> i \<and> i < length tr \<and> P (tr ! i) \<and> Q (tr ! j))"
  proof
    assume "\<exists>i j. j \<le> i \<and> i < length tr \<and> P (tr ! i) \<and> Q (tr ! j)"
    then obtain i j where ij: "j \<le> i" "i < length tr" "P (tr ! i) \<and> Q (tr ! j)" by blast
    then have "j < length tr" by simp
    with h ij have "i < j" by blast
    with ij(1) show False by simp
  qed
qed

lemma all_before_append:
  "all_before P Q (xs @ ys) \<longleftrightarrow>
     all_before P Q xs \<and> all_before P Q ys \<and> (\<forall>x \<in> set xs. \<forall>y \<in> set ys. \<not> (Q x \<and> P y))"
proof
  assume ab: "all_before P Q (xs @ ys)"
  have 1: "all_before P Q xs"
    unfolding all_before_iff
  proof (intro allI impI)
    fix i j assume "i < length xs" "j < length xs" "P (xs ! i) \<and> Q (xs ! j)"
    with ab [unfolded all_before_iff, rule_format, of i j] show "i < j"
      by (simp add: nth_append)
  qed
  have 2: "all_before P Q ys"
    unfolding all_before_iff
  proof (intro allI impI)
    fix i j assume "i < length ys" "j < length ys" "P (ys ! i) \<and> Q (ys ! j)"
    with ab [unfolded all_before_iff, rule_format, of "length xs + i" "length xs + j"] show "i < j"
      by (simp add: nth_append)
  qed
  have 3: "\<forall>x \<in> set xs. \<forall>y \<in> set ys. \<not> (Q x \<and> P y)"
  proof (intro ballI notI)
    fix x y assume "x \<in> set xs" "y \<in> set ys" "Q x \<and> P y"
    then obtain j i where "j < length xs" "xs ! j = x" "i < length ys" "ys ! i = y"
      by (auto simp: in_set_conv_nth)
    with ab [unfolded all_before_iff, rule_format, of "length xs + i" j] \<open>Q x \<and> P y\<close> show False
      by (simp add: nth_append)
  qed
  from 1 2 3 show "all_before P Q xs \<and> all_before P Q ys \<and> (\<forall>x \<in> set xs. \<forall>y \<in> set ys. \<not> (Q x \<and> P y))"
    by blast
next
  assume h: "all_before P Q xs \<and> all_before P Q ys \<and> (\<forall>x \<in> set xs. \<forall>y \<in> set ys. \<not> (Q x \<and> P y))"
  show "all_before P Q (xs @ ys)"
    unfolding all_before_iff
  proof (intro allI impI)
    fix i j assume ij: "i < length (xs @ ys)" "j < length (xs @ ys)" "P ((xs @ ys) ! i) \<and> Q ((xs @ ys) ! j)"
    show "i < j"
    proof (cases "i < length xs")
      case True
      show ?thesis
      proof (cases "j < length xs")
        case jl: True
        with True ij h [THEN conjunct1, unfolded all_before_iff, rule_format, of i j] show ?thesis
          by (simp add: nth_append)
      next
        case False
        with True show ?thesis by simp
      qed
    next
      case False
      show ?thesis
      proof (cases "j < length xs")
        case True
        have "xs ! j \<in> set xs" using True by simp
        moreover have "ys ! (i - length xs) \<in> set ys" using False ij by simp
        ultimately show ?thesis
          using h ij True False by (auto simp: nth_append)
      next
        case jf: False
        with False ij h [THEN conjunct2, THEN conjunct1, unfolded all_before_iff, rule_format,
            of "i - length xs" "j - length xs"] show ?thesis
          by (simp add: nth_append) linarith
      qed
    qed
  qed
qed

lemma all_before_none: "(\<forall>x \<in> set xs. \<not> P x) \<or> (\<forall>x \<in> set xs. \<not> Q x) \<Longrightarrow> all_before P Q xs"
  by (auto simp: all_before_def)


lemma groundtruth_ids_append:
  "groundtruth_ids pr (xs @ ys) = groundtruth_ids pr xs @ groundtruth_ids pr ys"
  by (simp add: groundtruth_ids_def)

lemma evaluations_append: "evaluations pr (xs @ ys) = evaluations pr xs @ evaluations pr ys"
  by (simp add: evaluations_def)

lemma logged_append: "logged n (xs @ ys) = logged n xs @ logged n ys"
  by (simp add: logged_def)


lemma groundtruth_ids_other: "\<forall>e \<in> set es. kind e \<noteq> GroundTruthCall \<Longrightarrow> groundtruth_ids pr es = []"
  by (induction es) (auto simp: groundtruth_ids_def kind_def split: event.splits)

lemma evaluations_other: "\<forall>e \<in> set es. kind e \<noteq> EvaluateCall \<Longrightarrow> evaluations pr es = []"
  by (induction es) (auto simp: evaluations_def kind_def split: event.splits)

lemma logged_other: "\<forall>e \<in> set es. kind e \<noteq> LoggerCall \<Longrightarrow> logged n es = []"
  by (induction es) (auto simp: logged_def kind_def split: event.splits)

lemma raised_other: "kind e = LoggerCall \<or> kind e = EvaluateCall \<Longrightarrow> \<not> raised pr e"
  by (auto simp: raised_def kind_def split: event.splits)

lemma logged_mem: "LogValue n v \<in> set tr \<Longrightarrow> v \<in> set (logged n tr)"
  by (induction tr) (auto simp: logged_def)

lemma kind_simps:
  "kind (LoggerCreate d n) = LoggerCall" "kind (LogMessage m) = LoggerCall"
  "kind (LogValue k v) = LoggerCall" "kind Flush = LoggerCall"
  "kind (AddGroundTruth pr i g r) = GroundTruthCall"
  "kind (AddDetected pr i p r) = DetectedCall"
  "kind (Evaluate pr rel res) = EvaluateCall"
  by (simp_all add: kind_def)

lemma proj_simps:
  "groundtruth_ids pr [] = []"
  "groundtruth_ids pr (AddGroundTruth pr' i g r # es) =
     (if pr' = pr then i # groundtruth_ids pr es else groundtruth_ids pr es)"
  "ingestion pr [] = []"
  "ingestion pr (AddGroundTruth pr' i g r # es) =
     (if pr' = pr then GroundTruthInfo i g # ingestion pr es else ingestion pr es)"
  "ingestion pr (AddDetected pr' i p r # es) =
     (if pr' = pr then DetectedInfo i p # ingestion pr es else ingestion pr es)"
  "raised pr (AddGroundTruth pr' i g r) = (pr' = pr \<and> r \<noteq> None)"
  "raised pr (AddDetected pr' i p r) = (pr' = pr \<and> r \<noteq> None)"
  "evaluations pr [] = []"
  "evaluations pr (Evaluate pr' rel res # es) =
     (if pr' = pr then (rel, res) # evaluations pr es else evaluations pr es)"
  "logged n [] = []"
  "logged n (LogValue n' v # es) = (if n' = n then v # logged n es else logged n es)"
  "logged n (LogMessage m # es) = logged n es"
  "logged n (Flush # es) = logged n es"
  "logged n (LoggerCreate d' n' # es) = logged n es"
  by (simp_all add: groundtruth_ids_def ingestion_def raised_def evaluations_def logged_def)

subsection \<open>The calls on the evaluators\<close>

lemma set_evaluator_fields:
  "trace (set_evaluator pr s w) = trace w"
  "logger_values (set_evaluator pr s w) = logger_values w"
  "evaluator pr' (set_evaluator pr s w) = (if pr' = pr then s else evaluator pr' w)"
  by (cases pr; cases pr'; simp add: set_evaluator_def evaluator_def)+

lemma emit_fields:
  "trace (emit e w) = trace w @ [e]"
  "logger_values (emit e w) = logger_values w"
  "evaluator pr (emit e w) = evaluator pr w"
  by (simp_all add: emit_def evaluator_def split: protocol.splits)

lemma call_add_ground_truth_cases:
  assumes "call_add_ground_truth env pr i g w = (res, w')"
  obtains (raise) e where "res = Inl e" "trace w' = trace w @ [AddGroundTruth pr i g (Some e)]"
            "add_single_ground_truth_image_info env pr (evaluator pr w) i g = Inl e"
        | (return) s where "res = Inr ()" "trace w' = trace w @ [AddGroundTruth pr i g None]"
            "add_single_ground_truth_image_info env pr (evaluator pr w) i g = Inr s"
            "\<And>pr'. evaluator pr' w' = (if pr' = pr then s else evaluator pr' w)"
  using assms
  by (auto simp: call_add_ground_truth_def emit_fields set_evaluator_fields split: sum.splits)

lemma call_add_detected_cases:
  assumes "call_add_detected env pr i p w = (res, w')"
  obtains (raise) e where "res = Inl e" "trace w' = trace w @ [AddDetected pr i p (Some e)]"
            "add_single_detected_image_info env pr (evaluator pr w) i p = Inl e"
        | (return) s where "res = Inr ()" "trace w' = trace w @ [AddDetected pr i p None]"
            "add_single_detected_image_info env pr (evaluator pr w) i p = Inr s"
            "\<And>pr'. evaluator pr' w' = (if pr' = pr then s else evaluator pr' w)"
  using assms
  by (auto simp: call_add_detected_def emit_fields set_evaluator_fields split: sum.splits)

text \<open>What one turn of the groundtruth loop does.\<close>

lemma ingest_groundtruth_cases:
  assumes "ingest_groundtruth env c r (i, fr) w = (res, w')"
  obtains (build) e where "build_groundtruth_vrd_dictionary env fr c r = Inl e"
            "res = Inl e" "trace w' = trace w"
        | (relation) g e where "build_groundtruth_vrd_dictionary env fr c r = Inr g"
            "res = Inl e" "trace w' = trace w @ [AddGroundTruth Relation i g (Some e)]"
            "add_single_ground_truth_image_info env Relation (evaluator Relation w) i g = Inl e"
        | (phrase) g e where "build_groundtruth_vrd_dictionary env fr c r = Inr g"
            "res = Inl e"
            "trace w' = trace w @ [AddGroundTruth Relation i g None, AddGroundTruth Phrase i g (Some e)]"
            "add_single_ground_truth_image_info env Phrase (evaluator Phrase w) i g = Inl e"
        | (complete) g s1 s2 where "build_groundtruth_vrd_dictionary env fr c r = Inr g"
            "res = Inr ()"
            "trace w' = trace w @ [AddGroundTruth Relation i g None, AddGroundTruth Phrase i g None]"
            "add_single_ground_truth_image_info env Relation (evaluator Relation w) i g = Inr s1"
            "add_single_ground_truth_image_info env Phrase (evaluator Phrase w) i g = Inr s2"
            "evaluator Relation w' = s1" "evaluator Phrase w' = s2"
proof -
  from assms have run:
    "bind (lift (build_groundtruth_vrd_dictionary env fr c r))
       (\<lambda>g. bind (call_add_ground_truth env Relation i g)
               (\<lambda>_. call_add_ground_truth env Phrase i g)) w = (res, w')"
    by (simp add: ingest_groundtruth_def)
  from run show ?thesis
  proof (cases rule: bind_cases)
    case (fail e)
    then show ?thesis using build by (simp add: lift_def)
  next
    case (ok g w1)
    then have b: "build_groundtruth_vrd_dictionary env fr c r = Inr g" and w1: "w1 = w"
      by (simp_all add: lift_def)
    from ok(2) show ?thesis
    proof (cases rule: bind_cases)
      case (fail e)
      from fail(1) show ?thesis
        by (cases rule: call_add_ground_truth_cases) (use fail b w1 relation in auto)
    next
      case (ok u w2)
      from ok(1) obtain s1 where t2: "trace w2 = trace w @ [AddGroundTruth Relation i g None]"
        and s1: "add_single_ground_truth_image_info env Relation (evaluator Relation w) i g = Inr s1"
        and e2: "\<And>pr'. evaluator pr' w2 = (if pr' = Relation then s1 else evaluator pr' w)"
        by (cases rule: call_add_ground_truth_cases) (use w1 in auto)
      from ok(2) show ?thesis
      proof (cases rule: call_add_ground_truth_cases)
        case (raise e)
        then show ?thesis using t2 b e2 [of Phrase] phrase by auto
      next
        case (return s2)
        then show ?thesis using t2 b s1 e2 [of Phrase] e2 [of Relation] complete [of g s1 s2] by auto
      qed
    qed
  qed
qed

lemma ingest_predictions_cases:
  assumes "ingest_predictions env c r (i, fr) w = (res, w')"
  obtains (build) e where "build_predictions_vrd_dictionary env fr c r = Inl e"
            "res = Inl e" "trace w' = trace w"
        | (relation) p e where "build_predictions_vrd_dictionary env fr c r = Inr p"
            "res = Inl e" "trace w' = trace w @ [AddDetected Relation i p (Some e)]"
        | (phrase) p e where "build_predictions_vrd_dictionary env fr c r = Inr p"
            "res = Inl e"
            "trace w' = trace w @ [AddDetected Relation i p None, AddDetected Phrase i p (Some e)]"
        | (complete) p where "build_predictions_vrd_dictionary env fr c r = Inr p"
            "res = Inr ()"
            "trace w' = trace w @ [AddDetected Relation i p None, AddDetected Phrase i p None]"
proof -
  from assms have run:
    "bind (lift (build_predictions_vrd_dictionary env fr c r))
       (\<lambda>p. bind (call_add_detected env Relation i p)
               (\<lambda>_. call_add_detected env Phrase i p)) w = (res, w')"
    by (simp add: ingest_predictions_def)
  from run show ?thesis
  proof (cases rule: bind_cases)
    case (fail e)
    then show ?thesis using build by (simp add: lift_def)
  next
    case (ok p w1)
    then have b: "build_predictions_vrd_dictionary env fr c r = Inr p" and w1: "w1 = w"
      by (simp_all add: lift_def)
    from ok(2) show ?thesis
    proof (cases rule: bind_cases)
      case (fail e)
      from fail(1) show ?thesis
        by (cases rule: call_add_detected_cases) (use fail b w1 relation in auto)
    next
      case (ok u w2)
      from ok(1) have t2: "trace w2 = trace w @ [AddDetected Relation i p None]"
        by (cases rule: call_add_detected_cases) (use w1 in auto)
      from ok(2) show ?thesis
        by (cases rule: call_add_detected_cases) (use t2 b phrase complete in auto)
    qed
  qed
qed

lemma groundtruth_segment_mono:
  "groundtruth_segment built keys res gs \<Longrightarrow> (\<And>i g. built i g \<Longrightarrow> built' i g) \<Longrightarrow>
   groundtruth_segment built' keys res gs"
  unfolding groundtruth_segment_def by blast

lemma detected_segment_mono:
  "detected_segment built res ds \<Longrightarrow> (\<And>i p. built i p \<Longrightarrow> built' i p) \<Longrightarrow>
   detected_segment built' res ds"
  unfolding detected_segment_def by blast

lemma groundtruth_loop:
  "foreach groups (ingest_groundtruth env c r) w = (res, w') \<Longrightarrow>
   \<exists>gs. trace w' = trace w @ gs
      \<and> groundtruth_segment (built_groundtruth env c r groups) (map fst groups) res gs"
proof (induction groups arbitrary: w)
  case Nil
  then show ?case
    by (simp add: returns_def groundtruth_segment_def proj_simps)
next
  case (Cons x groups)
  obtain i fr where x: "x = (i, fr)" by (cases x)
  from Cons.prems have run:
    "bind (ingest_groundtruth env c r (i, fr)) (\<lambda>_. foreach groups (ingest_groundtruth env c r)) w
       = (res, w')"
    by (simp add: x)
  from run show ?case
  proof (cases rule: bind_cases)
    case (fail e)
    from fail(1) show ?thesis
      by (cases rule: ingest_groundtruth_cases)
         (auto simp: groundtruth_segment_def proj_simps kind_simps fail(2) x built_groundtruth_def)
  next
    case (ok u w1)
    from ok(1) obtain g where
      t1: "trace w1 = trace w @ [AddGroundTruth Relation i g None, AddGroundTruth Phrase i g None]"
      and b: "build_groundtruth_vrd_dictionary env fr c r = Inr g"
      by (cases rule: ingest_groundtruth_cases) auto
    from Cons.IH [OF ok(2)] obtain gs where
      gs: "trace w' = trace w1 @ gs"
        "groundtruth_segment (built_groundtruth env c r groups) (map fst groups) res gs"
      by blast
    have gs': "groundtruth_segment (built_groundtruth env c r (x # groups)) (map fst groups) res gs"
      by (rule groundtruth_segment_mono [OF gs(2)]) (auto simp: built_groundtruth_def)
    have b': "built_groundtruth env c r (x # groups) i g"
      using b by (auto simp: built_groundtruth_def x)
    have "groundtruth_segment (built_groundtruth env c r (x # groups)) (map fst (x # groups)) res
            ([AddGroundTruth Relation i g None, AddGroundTruth Phrase i g None] @ gs)"
      using gs' b'
      by (auto simp: groundtruth_segment_def proj_simps kind_simps x)
    with gs(1) t1 show ?thesis
      by (intro exI [of _ "[AddGroundTruth Relation i g None, AddGroundTruth Phrase i g None] @ gs"]) simp
  qed
qed

lemma detected_loop:
  "foreach groups (ingest_predictions env c r) w = (res, w') \<Longrightarrow>
   \<exists>ds. trace w' = trace w @ ds \<and> detected_segment (built_predictions env c r groups) res ds"
proof (induction groups arbitrary: w)
  case Nil
  then show ?case
    by (simp add: returns_def detected_segment_def proj_simps)
next
  case (Cons x groups)
  obtain i fr where x: "x = (i, fr)" by (cases x)
  from Cons.prems have run:
    "bind (ingest_predictions env c r (i, fr)) (\<lambda>_. foreach groups (ingest_predictions env c r)) w
       = (res, w')"
    by (simp add: x)
  from run show ?case
  proof (cases rule: bind_cases)
    case (fail e)
    from fail(1) show ?thesis
      by (cases rule: ingest_predictions_cases)
         (auto simp: detected_segment_def proj_simps kind_simps fail(2) x built_predictions_def)
  next
    case (ok u w1)
    from ok(1) obtain p where
      t1: "trace w1 = trace w @ [AddDetected Relation i p None, AddDetected Phrase i p None]"
      and b: "build_predictions_vrd_dictionary env fr c r = Inr p"
      by (cases rule: ingest_predictions_cases) auto
    from Cons.IH [OF ok(2)] obtain ds where
      ds: "trace w' = trace w1 @ ds" "detected_segment (built_predictions env c r groups) res ds"
      by blast
    have ds': "detected_segment (built_predictions env c r (x # groups)) res ds"
      by (rule detected_segment_mono [OF ds(2)]) (auto simp: built_predictions_def)
    have b': "built_predictions env c r (x # groups) i p"
      using b by (auto simp: built_predictions_def x)
    have "detected_segment (built_predictions env c r (x # groups)) res
            ([AddDetected Relation i p None, AddDetected Phrase i p None] @ ds)"
      using ds' b'
      by (auto simp: detected_segment_def proj_simps kind_simps x)
    with ds(1) t1 show ?thesis
      by (intro exI [of _ "[AddDetected Relation i p None, AddDetected Phrase i p None] @ ds"]) simp
  qed
qed


subsection \<open>The phases\<close>

lemma dict_get_dict_set: "dict_get (dict_set d k v) k' = (if k' = k then Some v else dict_get d k')"
  by (simp add: dict_get_def map_of_dict_set)

lemma prologue_cases:
  assumes "prologue env a w = (res, w')"
  shows "\<exists>pre. trace w' = trace w @ pre
     \<and> (pre = [logger_create_event a]
        \<or> pre = [logger_create_event a, LogMessage ''Begin evaluation''])
     \<and> (\<forall>c r groups. res = Inr (c, r, groups) \<longrightarrow>
           pre = [logger_create_event a, LogMessage ''Begin evaluation'']
           \<and> relation_evaluator w' = new_evaluator env Relation
           \<and> phrase_evaluator w' = new_evaluator env Phrase
           \<and> (\<exists>loaded. logger_load env (dirname (output_metrics a))
                  (split_first ''.json'' (basename (output_metrics a))) = Inr loaded)
           \<and> (\<exists>b l. read_csv env (input_annotations_boxes a) = Inr b
                 \<and> read_csv env (input_annotations_labels a) = Inr l
                 \<and> groupby_ImageID (concat_frames b l) = Inr groups)
           \<and> load_labelmap (read_label_map env) (input_class_labelmap a) = Inr c
           \<and> load_labelmap (read_label_map env) (input_relationship_labelmap a) = Inr r)"
  using assms
  by (auto simp: prologue_def bind_def lift_def returns_def Logger_create_def Logger_message_def
        construct_evaluator_def emit_def set_evaluator_def logger_create_event_def
      split: sum.splits prod.splits)

lemma load_predictions_cases:
  assumes "load_predictions env a w = (res, w')"
  shows "w' = w \<and> (\<forall>groups. res = Inr groups \<longrightarrow>
           (\<exists>p. read_csv env (input_predictions a) = Inr p \<and> groupby_ImageID p = Inr groups))"
  using assms
  by (auto simp: load_predictions_def bind_def lift_def split: sum.splits prod.splits)

lemma call_evaluate_run:
  "call_evaluate env pr rel w = (res, w') \<Longrightarrow>
     trace w' = trace w @ [Evaluate pr rel res] \<and> res = evaluate env pr (evaluator pr w) rel"
  by (auto simp: call_evaluate_def Let_def emit_fields)

lemma log_metrics_run:
  "\<exists>w'. log_metrics metrics w = (Inr (), w') \<and> trace w' = trace w @ metric_events metrics"
  unfolding log_metrics_def metric_events_def
proof (induction metrics arbitrary: w)
  case Nil
  then show ?case by (simp add: returns_def)
next
  case (Cons kv metrics)
  obtain k v where kv: "kv = (k, v)" by (cases kv)
  obtain w1 where w1: "log_value (''eval_epoch.'' @ k) v w = (Inr (), w1)"
    "trace w1 = trace w @ [LogValue (''eval_epoch.'' @ k) v]"
    by (simp add: log_value_def emit_fields)
  from Cons.IH [of w1] w1 show ?case
    by (auto simp: kv bind_def)
qed

lemma report_tail:
  assumes "bind (lift (getitem rm ''VRDMetric_Relationships_mAP@0.5IOU'')) (\<lambda>m1.
     bind (lift (getitem rm ''VRDMetric_Relationships_Recall@50@0.5IOU'')) (\<lambda>m2.
     bind (lift (getitem pm ''VRDMetric_Phrases_mAP@0.5IOU'')) (\<lambda>m3.
     bind (log_value ''eval_epoch.score'' (m1 * 0.4 + m2 * 0.2 + m3 * 0.4)) (\<lambda>_.
     bind (Logger_values ''eval_epoch.score'') (\<lambda>scores.
     bind (log_value ''eval_epoch.epoch'' (of_int (int (length scores) - 1))) (\<lambda>_.
     bind Logger_flush (\<lambda>_.
     Logger_message ''End evaluation''))))))) w2 = (res, w')"
  shows "\<exists>tl. trace w' = trace w2 @ tl
     \<and> (\<forall>e \<in> set tl. kind e = LoggerCall) \<and> (\<forall>d n. LoggerCreate d n \<notin> set tl)
     \<and> (res = Inr () \<longrightarrow>
          (\<exists>x y z ep.
              getitem rm ''VRDMetric_Relationships_mAP@0.5IOU'' = Inr x
            \<and> getitem rm ''VRDMetric_Relationships_Recall@50@0.5IOU'' = Inr y
            \<and> getitem pm ''VRDMetric_Phrases_mAP@0.5IOU'' = Inr z
            \<and> tl = [LogValue ''eval_epoch.score'' (x * 0.4 + y * 0.2 + z * 0.4),
                    LogValue ''eval_epoch.epoch'' ep, Flush, LogMessage ''End evaluation'']))"
  using assms
  by (auto simp: bind_def lift_def log_value_def Logger_values_def Logger_flush_def
        Logger_message_def emit_def kind_simps getitem_def dict_get_dict_set
      split: sum.splits prod.splits option.splits)

lemma report_cases:
  assumes "report rm pm w = (res, w')"
  shows "\<exists>post. trace w' = trace w @ post
     \<and> (\<forall>e \<in> set post. kind e = LoggerCall)
     \<and> (\<forall>d n. LoggerCreate d n \<notin> set post)
     \<and> (res = Inr () \<longrightarrow>
          (\<exists>x y z ep.
              getitem rm ''VRDMetric_Relationships_mAP@0.5IOU'' = Inr x
            \<and> getitem rm ''VRDMetric_Relationships_Recall@50@0.5IOU'' = Inr y
            \<and> getitem pm ''VRDMetric_Phrases_mAP@0.5IOU'' = Inr z
            \<and> post = metric_events rm @ metric_events pm
                 @ [LogValue ''eval_epoch.score'' (x * 0.4 + y * 0.2 + z * 0.4),
                    LogValue ''eval_epoch.epoch'' ep, Flush, LogMessage ''End evaluation'']))"
proof -
  obtain w1 where w1: "log_metrics rm w = (Inr (), w1)" "trace w1 = trace w @ metric_events rm"
    using log_metrics_run by blast
  obtain w2 where w2: "log_metrics pm w1 = (Inr (), w2)" "trace w2 = trace w1 @ metric_events pm"
    using log_metrics_run by blast
  have logger: "\<forall>e \<in> set (metric_events rm @ metric_events pm). kind e = LoggerCall"
    by (auto simp: metric_events_def kind_simps)
  have nocreate: "\<forall>d n. LoggerCreate d n \<notin> set (metric_events rm @ metric_events pm)"
    by (auto simp: metric_events_def)
  from assms have rest:
    "bind (lift (getitem rm ''VRDMetric_Relationships_mAP@0.5IOU'')) (\<lambda>m1.
     bind (lift (getitem rm ''VRDMetric_Relationships_Recall@50@0.5IOU'')) (\<lambda>m2.
     bind (lift (getitem pm ''VRDMetric_Phrases_mAP@0.5IOU'')) (\<lambda>m3.
     bind (log_value ''eval_epoch.score'' (m1 * 0.4 + m2 * 0.2 + m3 * 0.4)) (\<lambda>_.
     bind (Logger_values ''eval_epoch.score'') (\<lambda>scores.
     bind (log_value ''eval_epoch.epoch'' (of_int (int (length scores) - 1))) (\<lambda>_.
     bind Logger_flush (\<lambda>_.
     Logger_message ''End evaluation''))))))) w2 = (res, w')"
    by (simp add: report_def bind_ok [where m = "log_metrics rm" and w = w, OF w1(1)]
          bind_ok [where m = "log_metrics pm" and w = w1, OF w2(1)])
  from report_tail [OF rest] obtain tl where tl: "trace w' = trace w2 @ tl"
     "\<forall>e \<in> set tl. kind e = LoggerCall" "\<forall>d n. LoggerCreate d n \<notin> set tl"
     "res = Inr () \<longrightarrow>
          (\<exists>x y z ep.
              getitem rm ''VRDMetric_Relationships_mAP@0.5IOU'' = Inr x
            \<and> getitem rm ''VRDMetric_Relationships_Recall@50@0.5IOU'' = Inr y
            \<and> getitem pm ''VRDMetric_Phrases_mAP@0.5IOU'' = Inr z
            \<and> tl = [LogValue ''eval_epoch.score'' (x * 0.4 + y * 0.2 + z * 0.4),
                    LogValue ''eval_epoch.epoch'' ep, Flush, LogMessage ''End evaluation''])"
    by blast
  show ?thesis
  proof (intro exI [of _ "metric_events rm @ metric_events pm @ tl"] conjI)
    show "trace w' = trace w @ metric_events rm @ metric_events pm @ tl"
      using tl(1) w1(2) w2(2) by simp
    show "\<forall>e \<in> set (metric_events rm @ metric_events pm @ tl). kind e = LoggerCall"
      using logger tl(2) by auto
    show "\<forall>d n. LoggerCreate d n \<notin> set (metric_events rm @ metric_events pm @ tl)"
      using nocreate tl(3) by auto
    show "res = Inr () \<longrightarrow>
          (\<exists>x y z ep.
              getitem rm ''VRDMetric_Relationships_mAP@0.5IOU'' = Inr x
            \<and> getitem rm ''VRDMetric_Relationships_Recall@50@0.5IOU'' = Inr y
            \<and> getitem pm ''VRDMetric_Phrases_mAP@0.5IOU'' = Inr z
            \<and> metric_events rm @ metric_events pm @ tl = metric_events rm @ metric_events pm
                 @ [LogValue ''eval_epoch.score'' (x * 0.4 + y * 0.2 + z * 0.4),
                    LogValue ''eval_epoch.epoch'' ep, Flush, LogMessage ''End evaluation''])"
      using tl(4) by auto
  qed
qed

subsection \<open>Every run\<close>

lemma run_shapeI:
  assumes "pre = [logger_create_event a]
         \<or> pre = [logger_create_event a, LogMessage ''Begin evaluation'']"
    and "distinct keys" and "groundtruth_segment gbuilt keys gres gs"
    and "groundtruth_phase env a gs"
    and "detected_segment dbuilt dres ds" and "ds = [] \<or> gres = Inr ()"
    and "evaluate_segment env a ev"
    and "\<forall>e \<in> set post. kind e = LoggerCall" and "\<forall>d n. LoggerCreate d n \<notin> set post"
  shows "run_shape env a (pre @ gs @ ds @ ev @ post)"
  unfolding run_shape_def using assms by blast

lemma groundtruth_segment_Nil: "groundtruth_segment built [] (Inl e) []"
  by (simp add: groundtruth_segment_def proj_simps)

lemma detected_segment_Nil: "detected_segment built (Inl e) []"
  by (simp add: detected_segment_def proj_simps)

lemma distinct_group_keys: "distinct (group_keys df)"
  by (simp add: group_keys_def)

lemma groupby_keys: "groupby_ImageID df = Inr groups \<Longrightarrow> map fst groups = group_keys df"
  by (auto simp: groupby_ImageID_def comp_def split: if_splits)

lemma main_shape:
  assumes "main env a w0 = (res, w)"
  shows "\<exists>tr. trace w = trace w0 @ tr \<and> run_shape env a tr"
proof -
  from assms have run:
    "bind (prologue env a) (\<lambda>(c, r, groups).
     bind (foreach groups (ingest_groundtruth env c r)) (\<lambda>_.
     bind (load_predictions env a) (\<lambda>prediction_groups.
     bind (foreach prediction_groups (ingest_predictions env c r)) (\<lambda>_.
     bind (call_evaluate env Relation (swap_labelmap_dict r)) (\<lambda>relation_metrics.
     bind (call_evaluate env Phrase (swap_labelmap_dict r)) (\<lambda>phrase_metrics.
     report relation_metrics phrase_metrics)))))) w0 = (res, w)"
    by (simp add: main_phases)
  let ?none = "\<lambda>i g. False"
  from run show ?thesis
  proof (cases rule: bind_cases)
    case (fail e)
    from prologue_cases [OF fail(1)] obtain pre where pre: "trace w = trace w0 @ pre"
      "pre = [logger_create_event a] \<or> pre = [logger_create_event a, LogMessage ''Begin evaluation'']"
      by blast
    have "run_shape env a (pre @ [] @ [] @ [] @ [])"
      by (rule run_shapeI [where keys = "[]" and gres = "Inl e" and dres = "Inl e"
            and gbuilt = ?none and dbuilt = ?none])
         (simp_all add: pre(2) groundtruth_segment_Nil detected_segment_Nil evaluate_segment_def
            groundtruth_phase_def)
    with pre(1) show ?thesis by auto
  next
    case (ok x w1)
    obtain c r groups where x: "x = (c, r, groups)" by (cases x) auto
    from prologue_cases [OF ok(1)] x obtain b l where
      pre: "trace w1 = trace w0 @ [logger_create_event a, LogMessage ''Begin evaluation'']"
      and grp: "groupby_ImageID (concat_frames b l) = Inr groups"
      and rl: "load_labelmap (read_label_map env) (input_relationship_labelmap a) = Inr r"
      and fresh: "relation_evaluator w1 = new_evaluator env Relation"
        "phrase_evaluator w1 = new_evaluator env Phrase"
      by auto
    let ?pre = "[logger_create_event a, LogMessage ''Begin evaluation'']"
    let ?keys = "map fst groups"
    let ?gb = "built_groundtruth env c r groups"
    have keys: "distinct ?keys"
      using groupby_keys [OF grp] distinct_group_keys by metis
    from ok(2) x have run2:
      "bind (foreach groups (ingest_groundtruth env c r)) (\<lambda>_.
       bind (load_predictions env a) (\<lambda>prediction_groups.
       bind (foreach prediction_groups (ingest_predictions env c r)) (\<lambda>_.
       bind (call_evaluate env Relation (swap_labelmap_dict r)) (\<lambda>relation_metrics.
       bind (call_evaluate env Phrase (swap_labelmap_dict r)) (\<lambda>phrase_metrics.
       report relation_metrics phrase_metrics))))) w1 = (res, w)"
      by simp
    from run2 show ?thesis
    proof (cases rule: bind_cases)
      case (fail e)
      from groundtruth_loop [OF fail(1)] obtain gs where
        gs: "trace w = trace w1 @ gs" "groundtruth_segment ?gb ?keys (Inl e) gs" by blast
      have ph: "groundtruth_phase env a gs"
        unfolding groundtruth_phase_def using fail(1) gs(1) fresh keys by blast
      have "run_shape env a (?pre @ gs @ [] @ [] @ [])"
        by (rule run_shapeI [where keys = ?keys and gres = "Inl e" and dres = "Inl e"
              and gbuilt = ?gb and dbuilt = ?none])
           (simp_all add: keys gs(2) ph detected_segment_Nil evaluate_segment_def)
      with gs(1) pre show ?thesis by auto
    next
      case (ok u w2)
      from groundtruth_loop [OF ok(1)] obtain gs where
        gs: "trace w2 = trace w1 @ gs" "groundtruth_segment ?gb ?keys (Inr ()) gs" by auto
      have ph: "groundtruth_phase env a gs"
        unfolding groundtruth_phase_def using ok(1) gs(1) fresh keys by blast
      from ok(2) show ?thesis
      proof (cases rule: bind_cases)
        case (fail e)
        from load_predictions_cases [OF fail(1)] have "w = w2" by simp
        moreover have "run_shape env a (?pre @ gs @ [] @ [] @ [])"
          by (rule run_shapeI [where keys = ?keys and gres = "Inr ()" and dres = "Inl e"
                and gbuilt = ?gb and dbuilt = ?none])
             (simp_all add: keys gs(2) ph detected_segment_Nil evaluate_segment_def)
        ultimately show ?thesis using gs(1) pre by auto
      next
        case (ok pgroups w3)
        from load_predictions_cases [OF ok(1)] have w3: "w3 = w2" by simp
        let ?db = "built_predictions env c r pgroups"
        from ok(2) show ?thesis
        proof (cases rule: bind_cases)
          case (fail e)
          from detected_loop [OF fail(1)] obtain ds where
            ds: "trace w = trace w3 @ ds" "detected_segment ?db (Inl e) ds" by blast
          have "run_shape env a (?pre @ gs @ ds @ [] @ [])"
            by (rule run_shapeI [where keys = ?keys and gres = "Inr ()" and dres = "Inl e"
                  and gbuilt = ?gb and dbuilt = ?db])
               (simp_all add: keys gs(2) ph ds(2) evaluate_segment_def)
          with ds(1) w3 gs(1) pre show ?thesis by auto
        next
          case (ok u' w4)
          from detected_loop [OF ok(1)] obtain ds where
            ds: "trace w4 = trace w3 @ ds" "detected_segment ?db (Inr ()) ds" by auto
          from ok(2) show ?thesis
          proof (cases rule: bind_cases)
            case (fail e)
            from call_evaluate_run [OF fail(1)]
            have t: "trace w = trace w4 @ [Evaluate Relation (swap_labelmap_dict r) (Inl e)]"
              by simp
            have "run_shape env a
                    (?pre @ gs @ ds @ [Evaluate Relation (swap_labelmap_dict r) (Inl e)] @ [])"
              by (rule run_shapeI [where keys = ?keys and gres = "Inr ()" and dres = "Inr ()"
                    and gbuilt = ?gb and dbuilt = ?db])
                 (use keys gs(2) ph ds(2) rl in \<open>auto simp: evaluate_segment_def\<close>)
            with t ds(1) w3 gs(1) pre show ?thesis by auto
          next
            case (ok rm w5)
            from call_evaluate_run [OF ok(1)]
            have t5: "trace w5 = trace w4 @ [Evaluate Relation (swap_labelmap_dict r) (Inr rm)]"
              by simp
            from ok(2) show ?thesis
            proof (cases rule: bind_cases)
              case (fail e)
              from call_evaluate_run [OF fail(1)]
              have t: "trace w = trace w5 @ [Evaluate Phrase (swap_labelmap_dict r) (Inl e)]"
                by simp
              have "run_shape env a
                      (?pre @ gs @ ds @ [Evaluate Relation (swap_labelmap_dict r) (Inr rm),
                                        Evaluate Phrase (swap_labelmap_dict r) (Inl e)] @ [])"
                by (rule run_shapeI [where keys = ?keys and gres = "Inr ()" and dres = "Inr ()"
                      and gbuilt = ?gb and dbuilt = ?db])
                   (use keys gs(2) ph ds(2) rl in \<open>auto simp: evaluate_segment_def\<close>)
              with t t5 ds(1) w3 gs(1) pre show ?thesis by auto
            next
              case (ok pm w6)
              from call_evaluate_run [OF ok(1)]
              have t6: "trace w6 = trace w5 @ [Evaluate Phrase (swap_labelmap_dict r) (Inr pm)]"
                by simp
              from report_cases [OF ok(2)] obtain post where
                post: "trace w = trace w6 @ post" "\<forall>e \<in> set post. kind e = LoggerCall"
                  "\<forall>d n. LoggerCreate d n \<notin> set post"
                by blast
              have "run_shape env a
                      (?pre @ gs @ ds @ [Evaluate Relation (swap_labelmap_dict r) (Inr rm),
                                        Evaluate Phrase (swap_labelmap_dict r) (Inr pm)] @ post)"
                by (rule run_shapeI [where keys = ?keys and gres = "Inr ()" and dres = "Inr ()"
                      and gbuilt = ?gb and dbuilt = ?db])
                   (use keys gs(2) ph ds(2) rl post in \<open>auto simp: evaluate_segment_def\<close>)
              with post(1) t6 t5 ds(1) w3 gs(1) pre show ?thesis by auto
            qed
          qed
        qed
      qed
    qed
  qed
qed


subsection \<open>Completed runs\<close>

lemma bind_okE:
  assumes "bind m f w = (Inr y, w'')"
  obtains x w' where "m w = (Inr x, w')" "f x w' = (Inr y, w'')"
  using assms by (auto simp: bind_def split: sum.splits prod.splits)

lemma main_completed:
  assumes "main env a w0 = (Inr (), w)"
  obtains b l c r groups p pgroups gs ds rm pm x y z ep where
    "\<exists>loaded. logger_load env (dirname (output_metrics a))
        (split_first ''.json'' (basename (output_metrics a))) = Inr loaded"
    "read_csv env (input_annotations_boxes a) = Inr b"
    "read_csv env (input_annotations_labels a) = Inr l"
    "load_labelmap (read_label_map env) (input_class_labelmap a) = Inr c"
    "load_labelmap (read_label_map env) (input_relationship_labelmap a) = Inr r"
    "groupby_ImageID (concat_frames b l) = Inr groups"
    "read_csv env (input_predictions a) = Inr p"
    "groupby_ImageID p = Inr pgroups"
    "groundtruth_segment (built_groundtruth env c r groups) (group_keys (concat_frames b l)) (Inr ()) gs"
    "detected_segment (built_predictions env c r pgroups) (Inr ()) ds"
    "getitem rm ''VRDMetric_Relationships_mAP@0.5IOU'' = Inr x"
    "getitem rm ''VRDMetric_Relationships_Recall@50@0.5IOU'' = Inr y"
    "getitem pm ''VRDMetric_Phrases_mAP@0.5IOU'' = Inr z"
    "trace w = trace w0 @ [logger_create_event a, LogMessage ''Begin evaluation''] @ gs @ ds
        @ [Evaluate Relation (swap_labelmap_dict r) (Inr rm),
           Evaluate Phrase (swap_labelmap_dict r) (Inr pm)]
        @ metric_events rm @ metric_events pm
        @ [LogValue ''eval_epoch.score'' (x * 0.4 + y * 0.2 + z * 0.4),
           LogValue ''eval_epoch.epoch'' ep, Flush, LogMessage ''End evaluation'']"
proof -
  from assms have run:
    "bind (prologue env a) (\<lambda>(c, r, groups).
     bind (foreach groups (ingest_groundtruth env c r)) (\<lambda>_.
     bind (load_predictions env a) (\<lambda>prediction_groups.
     bind (foreach prediction_groups (ingest_predictions env c r)) (\<lambda>_.
     bind (call_evaluate env Relation (swap_labelmap_dict r)) (\<lambda>relation_metrics.
     bind (call_evaluate env Phrase (swap_labelmap_dict r)) (\<lambda>phrase_metrics.
     report relation_metrics phrase_metrics)))))) w0 = (Inr (), w)"
    by (simp add: main_phases)
  from run obtain xx w1 where s1: "prologue env a w0 = (Inr xx, w1)"
    and k1: "(\<lambda>(c, r, groups).
     bind (foreach groups (ingest_groundtruth env c r)) (\<lambda>_.
     bind (load_predictions env a) (\<lambda>prediction_groups.
     bind (foreach prediction_groups (ingest_predictions env c r)) (\<lambda>_.
     bind (call_evaluate env Relation (swap_labelmap_dict r)) (\<lambda>relation_metrics.
     bind (call_evaluate env Phrase (swap_labelmap_dict r)) (\<lambda>phrase_metrics.
     report relation_metrics phrase_metrics)))))) xx w1 = (Inr (), w)"
    by (rule bind_okE)
  obtain c r groups where xx: "xx = (c, r, groups)" by (cases xx) auto
  from prologue_cases [OF s1] xx obtain b l where
    pre: "trace w1 = trace w0 @ [logger_create_event a, LogMessage ''Begin evaluation'']"
    and lg: "\<exists>loaded. logger_load env (dirname (output_metrics a))
        (split_first ''.json'' (basename (output_metrics a))) = Inr loaded"
    and rb: "read_csv env (input_annotations_boxes a) = Inr b"
    and rlb: "read_csv env (input_annotations_labels a) = Inr l"
    and grp: "groupby_ImageID (concat_frames b l) = Inr groups"
    and lc: "load_labelmap (read_label_map env) (input_class_labelmap a) = Inr c"
    and lr: "load_labelmap (read_label_map env) (input_relationship_labelmap a) = Inr r"
    by auto
  from k1 xx have run2:
    "bind (foreach groups (ingest_groundtruth env c r)) (\<lambda>_.
     bind (load_predictions env a) (\<lambda>prediction_groups.
     bind (foreach prediction_groups (ingest_predictions env c r)) (\<lambda>_.
     bind (call_evaluate env Relation (swap_labelmap_dict r)) (\<lambda>relation_metrics.
     bind (call_evaluate env Phrase (swap_labelmap_dict r)) (\<lambda>phrase_metrics.
     report relation_metrics phrase_metrics))))) w1 = (Inr (), w)"
    by simp
  from run2 obtain u2 w2 where s2: "foreach groups (ingest_groundtruth env c r) w1 = (Inr u2, w2)"
    and k2: "bind (load_predictions env a) (\<lambda>prediction_groups.
     bind (foreach prediction_groups (ingest_predictions env c r)) (\<lambda>_.
     bind (call_evaluate env Relation (swap_labelmap_dict r)) (\<lambda>relation_metrics.
     bind (call_evaluate env Phrase (swap_labelmap_dict r)) (\<lambda>phrase_metrics.
     report relation_metrics phrase_metrics)))) w2 = (Inr (), w)"
    by (rule bind_okE)
  from groundtruth_loop [OF s2] groupby_keys [OF grp] obtain gs where
    gs: "trace w2 = trace w1 @ gs"
      "groundtruth_segment (built_groundtruth env c r groups) (group_keys (concat_frames b l)) (Inr ()) gs"
    by auto
  from k2 obtain pgroups w3 where s3: "load_predictions env a w2 = (Inr pgroups, w3)"
    and k3: "bind (foreach pgroups (ingest_predictions env c r)) (\<lambda>_.
     bind (call_evaluate env Relation (swap_labelmap_dict r)) (\<lambda>relation_metrics.
     bind (call_evaluate env Phrase (swap_labelmap_dict r)) (\<lambda>phrase_metrics.
     report relation_metrics phrase_metrics))) w3 = (Inr (), w)"
    by (rule bind_okE)
  from load_predictions_cases [OF s3] obtain p where w3: "w3 = w2"
    and rp: "read_csv env (input_predictions a) = Inr p" and gp: "groupby_ImageID p = Inr pgroups"
    by auto
  from k3 obtain u4 w4 where s4: "foreach pgroups (ingest_predictions env c r) w3 = (Inr u4, w4)"
    and k4: "bind (call_evaluate env Relation (swap_labelmap_dict r)) (\<lambda>relation_metrics.
     bind (call_evaluate env Phrase (swap_labelmap_dict r)) (\<lambda>phrase_metrics.
     report relation_metrics phrase_metrics)) w4 = (Inr (), w)"
    by (rule bind_okE)
  from detected_loop [OF s4] obtain ds where
    ds: "trace w4 = trace w3 @ ds" "detected_segment (built_predictions env c r pgroups) (Inr ()) ds"
    by auto
  from k4 obtain rm w5 where s5: "call_evaluate env Relation (swap_labelmap_dict r) w4 = (Inr rm, w5)"
    and k5: "bind (call_evaluate env Phrase (swap_labelmap_dict r)) (\<lambda>phrase_metrics.
     report rm phrase_metrics) w5 = (Inr (), w)"
    by (rule bind_okE)
  from k5 obtain pm w6 where s6: "call_evaluate env Phrase (swap_labelmap_dict r) w5 = (Inr pm, w6)"
    and k6: "report rm pm w6 = (Inr (), w)"
    by (rule bind_okE)
  from call_evaluate_run [OF s5]
  have t5: "trace w5 = trace w4 @ [Evaluate Relation (swap_labelmap_dict r) (Inr rm)]" by simp
  from call_evaluate_run [OF s6]
  have t6: "trace w6 = trace w5 @ [Evaluate Phrase (swap_labelmap_dict r) (Inr pm)]" by simp
  from report_cases [OF k6] obtain x y z ep where
    gx: "getitem rm ''VRDMetric_Relationships_mAP@0.5IOU'' = Inr x"
    and gy: "getitem rm ''VRDMetric_Relationships_Recall@50@0.5IOU'' = Inr y"
    and gz: "getitem pm ''VRDMetric_Phrases_mAP@0.5IOU'' = Inr z"
    and post: "trace w = trace w6 @ metric_events rm @ metric_events pm
                 @ [LogValue ''eval_epoch.score'' (x * 0.4 + y * 0.2 + z * 0.4),
                    LogValue ''eval_epoch.epoch'' ep, Flush, LogMessage ''End evaluation'']"
    by auto
  have tr: "trace w = trace w0 @ [logger_create_event a, LogMessage ''Begin evaluation''] @ gs @ ds
        @ [Evaluate Relation (swap_labelmap_dict r) (Inr rm),
           Evaluate Phrase (swap_labelmap_dict r) (Inr pm)]
        @ metric_events rm @ metric_events pm
        @ [LogValue ''eval_epoch.score'' (x * 0.4 + y * 0.2 + z * 0.4),
           LogValue ''eval_epoch.epoch'' ep, Flush, LogMessage ''End evaluation'']"
    using post t6 t5 ds(1) w3 gs(1) pre by simp
  show ?thesis
    by (rule that [OF lg rb rlb lc lr grp rp gp gs(2) ds(2) gx gy gz tr])
qed

lemmas run_simps = bind_apply bind_run_simps lift_def returns_def Logger_create_def Logger_message_def
  log_value_def Logger_values_def Logger_flush_def call_add_ground_truth_def call_add_detected_def
  call_evaluate_def construct_evaluator_def emit_def evaluator_def set_evaluator_def
  ingest_groundtruth_def ingest_predictions_def log_metrics_def
  load_labelmap_def swap_labelmap_dict_def getitem_def dict_get_def
  dirname_def basename_def Let_def

lemma demo_env_simps:
  "logger_load demo_env = (\<lambda>d n. Inr [])"
  "new_evaluator demo_env = (\<lambda>pr. ([], []))"
  "add_single_ground_truth_image_info demo_env = (\<lambda>pr s i g. Inr (fst s @ [(i, g)], snd s))"
  "add_single_detected_image_info demo_env = (\<lambda>pr s i p. Inr (fst s, snd s @ [(i, p)]))"
  "build_groundtruth_vrd_dictionary demo_env = (\<lambda>df c r. Inr (map snd (rows df)))"
  "build_predictions_vrd_dictionary demo_env = (\<lambda>df c r. Inr (map snd (rows df)))"
  "evaluate demo_env = (\<lambda>pr s rel. Inr (demo_metrics pr (if fst s = snd s then 1 else 0)))"
  "read_csv demo_env ''boxes.csv'' =
     Inr \<lparr>columns = [''ImageID'', ''Box''], rows = [(Some 7, 70), (Some 4, 40), (Some 7, 71)]\<rparr>"
  "read_csv demo_env ''labels.csv'' =
     Inr \<lparr>columns = [''ImageID'', ''Label''], rows = [(Some 4, 41)]\<rparr>"
  "read_csv demo_env ''predictions.csv'' =
     Inr \<lparr>columns = [''ImageID'', ''Box''],
          rows = [(Some 4, 40), (Some 7, 70), (Some 7, 71), (Some 4, 41)]\<rparr>"
  "read_csv demo_env ''missing.csv'' = Inl (FileNotFoundError ''missing.csv'')"
  "read_label_map demo_env ''labelmap.pbtxt'' =
     Inr [\<lparr>item_name = ''at'', item_id = 1\<rparr>, \<lparr>item_name = ''on'', item_id = 2\<rparr>]"
  by (simp_all add: demo_env_def)

lemma demo_groups:
  "groupby_ImageID
     (concat_frames \<lparr>columns = [''ImageID'', ''Box''], rows = [(Some 7, 70), (Some 4, 40), (Some (7::nat), 71::nat)]\<rparr>
        \<lparr>columns = [''ImageID'', ''Label''], rows = [(Some 4, 41)]\<rparr>)
   = Inr [(4, \<lparr>columns = [''Box'', ''ImageID'', ''Label''], rows = [(Some 4, 40), (Some 4, 41)]\<rparr>),
          (7, \<lparr>columns = [''Box'', ''ImageID'', ''Label''], rows = [(Some 7, 70), (Some 7, 71)]\<rparr>)]"
  "groupby_ImageID
     \<lparr>columns = [''ImageID'', ''Box''],
      rows = [(Some 4, 40), (Some 7, 70), (Some 7, 71), (Some (4::nat), 41::nat)]\<rparr>
   = Inr [(4, \<lparr>columns = [''ImageID'', ''Box''], rows = [(Some 4, 40), (Some 4, 41)]\<rparr>),
          (7, \<lparr>columns = [''ImageID'', ''Box''], rows = [(Some 7, 70), (Some 7, 71)]\<rparr>)]"
  by code_simp+

lemma demo_missing_predictions:
  "main demo_env (demo_args\<lparr>input_predictions := ''missing.csv''\<rparr>) (initial_world demo_env)
     = (Inl (FileNotFoundError ''missing.csv''),
        \<lparr>relation_evaluator = ([(4, [40, 41]), (7, [70, 71])], []),
         phrase_evaluator = ([(4, [40, 41]), (7, [70, 71])], []),
         logger_values = [],
         trace = [LoggerCreate ''out'' ''run'', LogMessage ''Begin evaluation'',
                  AddGroundTruth Relation 4 [40, 41] None, AddGroundTruth Phrase 4 [40, 41] None,
                  AddGroundTruth Relation 7 [70, 71] None, AddGroundTruth Phrase 7 [70, 71] None]\<rparr>)"
  unfolding main_def demo_args_def initial_world_def
  by (simp add: run_simps demo_env_simps demo_groups demo_metrics_def cong: bind_run_cong bind_cong)


lemma demo_run:
  "main demo_env demo_args (initial_world demo_env)
     = (Inr (),
        \<lparr>relation_evaluator = ([(4, [40, 41]), (7, [70, 71])], [(4, [40, 41]), (7, [70, 71])]),
         phrase_evaluator = ([(4, [40, 41]), (7, [70, 71])], [(4, [40, 41]), (7, [70, 71])]),
         logger_values =
           [(''eval_epoch.VRDMetric_Relationships_mAP@0.5IOU'', [1]),
            (''eval_epoch.VRDMetric_Relationships_Recall@50@0.5IOU'', [1]),
            (''eval_epoch.VRDMetric_Phrases_mAP@0.5IOU'', [1]),
            (''eval_epoch.score'', [1]), (''eval_epoch.epoch'', [0])],
         trace =
           [LoggerCreate ''out'' ''run'', LogMessage ''Begin evaluation'',
            AddGroundTruth Relation 4 [40, 41] None, AddGroundTruth Phrase 4 [40, 41] None,
            AddGroundTruth Relation 7 [70, 71] None, AddGroundTruth Phrase 7 [70, 71] None,
            AddDetected Relation 4 [40, 41] None, AddDetected Phrase 4 [40, 41] None,
            AddDetected Relation 7 [70, 71] None, AddDetected Phrase 7 [70, 71] None,
            Evaluate Relation [(1, ''at''), (2, ''on'')]
              (Inr [(''VRDMetric_Relationships_mAP@0.5IOU'', 1),
                    (''VRDMetric_Relationships_Recall@50@0.5IOU'', 1)]),
            Evaluate Phrase [(1, ''at''), (2, ''on'')] (Inr [(''VRDMetric_Phrases_mAP@0.5IOU'', 1)]),
            LogValue ''eval_epoch.VRDMetric_Relationships_mAP@0.5IOU'' 1,
            LogValue ''eval_epoch.VRDMetric_Relationships_Recall@50@0.5IOU'' 1,
            LogValue ''eval_epoch.VRDMetric_Phrases_mAP@0.5IOU'' 1,
            LogValue ''eval_epoch.score'' 1, LogValue ''eval_epoch.epoch'' 0,
            Flush, LogMessage ''End evaluation'']\<rparr>)"
  unfolding main_def demo_args_def initial_world_def
  by (simp add: run_simps demo_env_simps demo_groups demo_metrics_def cong: bind_run_cong bind_cong)

subsection \<open>What holds of every run\<close>

lemma run_trace_shape: "run_shape env a (run_trace env a)"
proof -
  obtain res w where run: "main env a (initial_world env) = (res, w)"
    by (cases "main env a (initial_world env)")
  from main_shape [OF run] have "run_shape env a (trace w)"
    by (simp add: initial_world_def)
  with run show ?thesis by (simp add: run_trace_def)
qed

lemma completed_run:
  "outcome env a = Inr () \<Longrightarrow>
   main env a (initial_world env) = (Inr (), snd (main env a (initial_world env)))"
  by (cases "main env a (initial_world env)") (simp add: outcome_def)

lemma all_before_kind:
  "\<forall>e \<in> set xs. kind e = k \<Longrightarrow> A \<noteq> B \<Longrightarrow>
   all_before (\<lambda>e. kind e = A) (\<lambda>e. kind e = B) xs"
  by (rule all_before_none) auto

lemma segments_order:
  assumes "\<forall>e \<in> set pre. kind e = LoggerCall" "\<forall>e \<in> set gs. kind e = GroundTruthCall"
    "\<forall>e \<in> set ds. kind e = DetectedCall" "\<forall>e \<in> set ev. kind e = EvaluateCall"
    "\<forall>e \<in> set post. kind e = LoggerCall"
    and "(A, B) \<in> {(GroundTruthCall, DetectedCall), (DetectedCall, EvaluateCall),
                   (GroundTruthCall, EvaluateCall)}"
  shows "all_before (\<lambda>e. kind e = A) (\<lambda>e. kind e = B) (pre @ gs @ ds @ ev @ post)"
proof -
  from assms(6) have ne: "A \<noteq> B" by auto
  note parts = all_before_kind [OF assms(1) ne] all_before_kind [OF assms(2) ne]
    all_before_kind [OF assms(3) ne] all_before_kind [OF assms(4) ne]
    all_before_kind [OF assms(5) ne]
  show ?thesis
    using assms parts by (auto simp: all_before_append)
qed

lemma evaluate_segment_kind: "evaluate_segment env a ev \<Longrightarrow> \<forall>e \<in> set ev. kind e = EvaluateCall"
  by (auto simp: evaluate_segment_def kind_simps)

lemma evaluate_segment_count: "evaluate_segment env a ev \<Longrightarrow> length (evaluations pr ev) \<le> 1"
  by (cases pr) (auto simp: evaluate_segment_def proj_simps)

lemma shape_parts:
  assumes "run_shape env a tr"
  obtains pre gs ds ev post keys gres dres gbuilt dbuilt where
    "tr = pre @ gs @ ds @ ev @ post"
    "pre = [logger_create_event a] \<or> pre = [logger_create_event a, LogMessage ''Begin evaluation'']"
    "distinct keys" "groundtruth_segment gbuilt keys gres gs" "groundtruth_phase env a gs"
    "detected_segment dbuilt dres ds" "evaluate_segment env a ev"
    "\<forall>e \<in> set post. kind e = LoggerCall" "\<forall>d n. LoggerCreate d n \<notin> set post"
    "\<forall>e \<in> set pre. kind e = LoggerCall" "\<forall>e \<in> set gs. kind e = GroundTruthCall"
    "\<forall>e \<in> set ds. kind e = DetectedCall" "\<forall>e \<in> set ev. kind e = EvaluateCall"
    "ds = [] \<or> gres = Inr ()"
proof -
  from assms obtain pre gs ds ev post keys gres dres gbuilt dbuilt where
    p: "tr = pre @ gs @ ds @ ev @ post"
    "pre = [logger_create_event a] \<or> pre = [logger_create_event a, LogMessage ''Begin evaluation'']"
    "distinct keys" "groundtruth_segment gbuilt keys gres gs" "groundtruth_phase env a gs"
    "detected_segment dbuilt dres ds" "evaluate_segment env a ev"
    "\<forall>e \<in> set post. kind e = LoggerCall" "\<forall>d n. LoggerCreate d n \<notin> set post"
    and link: "ds = [] \<or> gres = Inr ()"
    unfolding run_shape_def by blast
  have k1: "\<forall>e \<in> set pre. kind e = LoggerCall"
    using p(2) by (auto simp: logger_create_event_def kind_simps)
  have k2: "\<forall>e \<in> set gs. kind e = GroundTruthCall"
    using p(4) by (simp add: groundtruth_segment_def)
  have k3: "\<forall>e \<in> set ds. kind e = DetectedCall"
    using p(6) by (simp add: detected_segment_def)
  have k4: "\<forall>e \<in> set ev. kind e = EvaluateCall"
    using p(7) by (rule evaluate_segment_kind)
  show ?thesis by (rule that [OF p k1 k2 k3 k4 link])
qed

lemma shape_order:
  assumes "run_shape env a tr"
    and "(A, B) \<in> {(GroundTruthCall, DetectedCall), (DetectedCall, EvaluateCall),
                   (GroundTruthCall, EvaluateCall)}"
  shows "all_before (\<lambda>e. kind e = A) (\<lambda>e. kind e = B) tr"
  using assms(1)
proof (cases rule: shape_parts)
  case (1 pre gs ds ev post keys gres dres gbuilt dbuilt)
  show ?thesis
    unfolding 1(1) by (rule segments_order [OF 1(10) 1(11) 1(12) 1(13) 1(8) assms(2)])
qed

lemma shape_evaluations:
  assumes "run_shape env a tr"
  shows "length (evaluations pr tr) \<le> 1"
  using assms
proof (cases rule: shape_parts)
  case (1 pre gs ds ev post keys gres dres gbuilt dbuilt)
  have "evaluations pr pre = []" "evaluations pr gs = []" "evaluations pr ds = []"
    "evaluations pr post = []"
    using 1(10) 1(11) 1(12) 1(8) by (auto intro!: evaluations_other)
  then show ?thesis
    using evaluate_segment_count [OF 1(7), of pr] by (simp add: 1(1) evaluations_append)
qed



lemma shape_no_file:
  assumes "run_shape env a tr"
  shows "FileCall \<notin> set (map kind tr)"
  using assms
proof (cases rule: shape_parts)
  case (1 pre gs ds ev post keys gres dres gbuilt dbuilt)
  from 1(10) 1(11) 1(12) 1(13) 1(8) show ?thesis
    by (auto simp: 1(1))
qed

lemma shape_groundtruth_ids:
  assumes "run_shape env a tr"
  shows "distinct (groundtruth_ids pr tr)"
  using assms
proof (cases rule: shape_parts)
  case (1 pre gs ds ev post keys gres dres gbuilt dbuilt)
  have none: "groundtruth_ids pr pre = []" "groundtruth_ids pr ds = []"
    "groundtruth_ids pr ev = []" "groundtruth_ids pr post = []"
    using 1(10) 1(12) 1(13) 1(8) by (auto intro!: groundtruth_ids_other)
  from 1(4) have "prefix (groundtruth_ids pr gs) keys"
    by (cases pr) (auto simp: groundtruth_segment_def)
  with 1(3) have "distinct (groundtruth_ids pr gs)"
    by (auto simp: prefix_def)
  then show ?thesis
    by (simp add: 1(1) groundtruth_ids_append none)
qed

lemma shape_relationships:
  assumes "run_shape env a tr" and "Evaluate pr rel res \<in> set tr"
  shows "\<exists>r. load_labelmap (read_label_map env) (input_relationship_labelmap a) = Inr r
            \<and> rel = swap_labelmap_dict r"
  using assms(1)
proof (cases rule: shape_parts)
  case (1 pre gs ds ev post keys gres dres gbuilt dbuilt)
  from assms(2) 1(10) 1(11) 1(12) 1(8) have "Evaluate pr rel res \<in> set ev"
    by (auto simp: 1(1) kind_simps dest!: bspec)
  with 1(7) show ?thesis
    by (auto simp: evaluate_segment_def)
qed

lemma shape_logger_create:
  assumes "run_shape env a tr"
  shows "\<exists>tl. tr = logger_create_event a # tl \<and> (\<forall>d n. LoggerCreate d n \<notin> set tl)"
  using assms
proof (cases rule: shape_parts)
  case (1 pre gs ds ev post keys gres dres gbuilt dbuilt)
  have "\<forall>d n. LoggerCreate d n \<notin> set gs \<union> set ds \<union> set ev"
    using 1(11) 1(12) 1(13) by (auto simp: kind_simps dest!: bspec)
  with 1(2) 1(9) show ?thesis
    by (auto simp: 1(1))
qed


lemma evaluations_Cons_other:
  "kind e \<noteq> EvaluateCall \<Longrightarrow> evaluations pr (e # es) = evaluations pr es"
  using evaluations_other [of "[e]" pr] evaluations_append [of pr "[e]" es] by simp

lemma logged_Cons_other: "kind e \<noteq> LoggerCall \<Longrightarrow> logged n (e # es) = logged n es"
  using logged_other [of "[e]" n] logged_append [of n "[e]" es] by simp

lemma demo_trace:
  "run_trace demo_env demo_args =
           [LoggerCreate ''out'' ''run'', LogMessage ''Begin evaluation'',
            AddGroundTruth Relation 4 [40, 41] None, AddGroundTruth Phrase 4 [40, 41] None,
            AddGroundTruth Relation 7 [70, 71] None, AddGroundTruth Phrase 7 [70, 71] None,
            AddDetected Relation 4 [40, 41] None, AddDetected Phrase 4 [40, 41] None,
            AddDetected Relation 7 [70, 71] None, AddDetected Phrase 7 [70, 71] None,
            Evaluate Relation [(1, ''at''), (2, ''on'')]
              (Inr [(''VRDMetric_Relationships_mAP@0.5IOU'', 1),
                    (''VRDMetric_Relationships_Recall@50@0.5IOU'', 1)]),
            Evaluate Phrase [(1, ''at''), (2, ''on'')] (Inr [(''VRDMetric_Phrases_mAP@0.5IOU'', 1)]),
            LogValue ''eval_epoch.VRDMetric_Relationships_mAP@0.5IOU'' 1,
            LogValue ''eval_epoch.VRDMetric_Relationships_Recall@50@0.5IOU'' 1,
            LogValue ''eval_epoch.VRDMetric_Phrases_mAP@0.5IOU'' 1,
            LogValue ''eval_epoch.score'' 1, LogValue ''eval_epoch.epoch'' 0,
            Flush, LogMessage ''End evaluation'']"
  by (simp add: run_trace_def demo_run)

text \<open>
  C1: in a run of \<^verbatim>\<open>main\<close> that reaches line 136, the value logged last under
  \<^verbatim>\<open>eval_epoch.score\<close> is 0.4 times the relation evaluator's
  \<^verbatim>\<open>VRDMetric_Relationships_mAP@0.5IOU\<close> plus 0.2 times its
  \<^verbatim>\<open>VRDMetric_Relationships_Recall@50@0.5IOU\<close> plus 0.4 times the phrase evaluator's
  \<^verbatim>\<open>VRDMetric_Phrases_mAP@0.5IOU\<close>, whatever the arguments and the collaborators: the
  weights are literals. (A run that raises earlier logs no composite score.)
\<close>

theorem composite_score:
  assumes "outcome env a = Inr ()"
  shows "\<exists>rel rm pm x y z.
      evaluations Relation (run_trace env a) = [(rel, Inr rm)]
    \<and> evaluations Phrase (run_trace env a) = [(rel, Inr pm)]
    \<and> dict_get rm ''VRDMetric_Relationships_mAP@0.5IOU'' = Some x
    \<and> dict_get rm ''VRDMetric_Relationships_Recall@50@0.5IOU'' = Some y
    \<and> dict_get pm ''VRDMetric_Phrases_mAP@0.5IOU'' = Some z
    \<and> logged ''eval_epoch.score'' (run_trace env a) \<noteq> []
    \<and> last (logged ''eval_epoch.score'' (run_trace env a)) = 0.4 * x + 0.2 * y + 0.4 * z"
proof -
  from completed_run [OF assms] show ?thesis
  proof (cases rule: main_completed)
    case (1 b l c r groups p pgroups gs ds rm pm x y z ep)
    let ?pre = "[logger_create_event a, LogMessage ''Begin evaluation'']"
    let ?tl = "[LogValue ''eval_epoch.score'' (x * 0.4 + y * 0.2 + z * 0.4),
               LogValue ''eval_epoch.epoch'' ep, Flush, LogMessage ''End evaluation'']"
    have tr: "run_trace env a = ?pre @ gs @ ds
        @ [Evaluate Relation (swap_labelmap_dict r) (Inr rm),
           Evaluate Phrase (swap_labelmap_dict r) (Inr pm)]
        @ metric_events rm @ metric_events pm @ ?tl"
      using 1(14) by (simp add: run_trace_def initial_world_def)
    have kg: "\<forall>e \<in> set gs. kind e \<noteq> EvaluateCall" "\<forall>e \<in> set ds. kind e \<noteq> EvaluateCall"
      using 1(9) 1(10) by (auto simp: groundtruth_segment_def detected_segment_def)
    have km: "\<forall>e \<in> set (metric_events m). kind e \<noteq> EvaluateCall" for m :: "(string, real) dict"
      by (auto simp: metric_events_def kind_simps)
    have ev: "evaluations pr ?pre = []" "evaluations pr gs = []" "evaluations pr ds = []"
      "evaluations pr (metric_events rm) = []" "evaluations pr (metric_events pm) = []"
      "evaluations pr ?tl = []" for pr
      using kg km by (auto intro!: evaluations_other simp: kind_simps logger_create_event_def)
    have e1: "evaluations Relation (run_trace env a) = [(swap_labelmap_dict r, Inr rm)]"
      and e2: "evaluations Phrase (run_trace env a) = [(swap_labelmap_dict r, Inr pm)]"
      by (simp_all add: tr evaluations_append ev proj_simps evaluations_Cons_other kind_simps
            logger_create_event_def)
    have lg: "logged ''eval_epoch.score'' (run_trace env a)
        = logged ''eval_epoch.score''
            (?pre @ gs @ ds
              @ [Evaluate Relation (swap_labelmap_dict r) (Inr rm),
                 Evaluate Phrase (swap_labelmap_dict r) (Inr pm)]
              @ metric_events rm @ metric_events pm)
          @ [x * 0.4 + y * 0.2 + z * 0.4]"
      unfolding tr
      by (simp add: logged_append proj_simps logged_Cons_other kind_simps logger_create_event_def)
    have gets: "dict_get rm ''VRDMetric_Relationships_mAP@0.5IOU'' = Some x"
      "dict_get rm ''VRDMetric_Relationships_Recall@50@0.5IOU'' = Some y"
      "dict_get pm ''VRDMetric_Phrases_mAP@0.5IOU'' = Some z"
      using 1(11) 1(12) 1(13) by (auto simp: getitem_def split: option.splits)
    have "logged ''eval_epoch.score'' (run_trace env a) \<noteq> []"
      and "last (logged ''eval_epoch.score'' (run_trace env a)) = 0.4 * x + 0.2 * y + 0.4 * z"
      by (simp_all add: lg)
    with e1 e2 gets show ?thesis by blast
  qed
qed

theorem composite_score_witness:
  "outcome demo_env demo_args = Inr ()
   \<and> evaluations Relation (run_trace demo_env demo_args)
       = [([(1, ''at''), (2, ''on'')],
           Inr [(''VRDMetric_Relationships_mAP@0.5IOU'', 1),
                (''VRDMetric_Relationships_Recall@50@0.5IOU'', 1)])]
   \<and> evaluations Phrase (run_trace demo_env demo_args)
       = [([(1, ''at''), (2, ''on'')], Inr [(''VRDMetric_Phrases_mAP@0.5IOU'', 1)])]
   \<and> last (logged ''eval_epoch.score'' (run_trace demo_env demo_args)) = 0.4 * 1 + 0.2 * 1 + 0.4 * 1"
proof -
  have h: "outcome demo_env demo_args = Inr ()"
    by (simp add: outcome_def demo_run)
  from composite_score [OF h] obtain rel rm pm x y z where
    e: "evaluations Relation (run_trace demo_env demo_args) = [(rel, Inr rm)]"
       "evaluations Phrase (run_trace demo_env demo_args) = [(rel, Inr pm)]"
    and g: "dict_get rm ''VRDMetric_Relationships_mAP@0.5IOU'' = Some x"
       "dict_get rm ''VRDMetric_Relationships_Recall@50@0.5IOU'' = Some y"
       "dict_get pm ''VRDMetric_Phrases_mAP@0.5IOU'' = Some z"
    and s: "last (logged ''eval_epoch.score'' (run_trace demo_env demo_args))
              = 0.4 * x + 0.2 * y + 0.4 * z"
    by blast
  have e': "evaluations Relation (run_trace demo_env demo_args)
       = [([(1, ''at''), (2, ''on'')],
           Inr [(''VRDMetric_Relationships_mAP@0.5IOU'', 1),
                (''VRDMetric_Relationships_Recall@50@0.5IOU'', 1)])]"
    "evaluations Phrase (run_trace demo_env demo_args)
       = [([(1, ''at''), (2, ''on'')], Inr [(''VRDMetric_Phrases_mAP@0.5IOU'', 1)])]"
    by (simp_all add: demo_trace proj_simps evaluations_def)
  from e e' have "rm = [(''VRDMetric_Relationships_mAP@0.5IOU'', 1),
                (''VRDMetric_Relationships_Recall@50@0.5IOU'', 1)]"
    "pm = [(''VRDMetric_Phrases_mAP@0.5IOU'', 1)]"
    by simp_all
  with g have "x = 1" "y = 1" "z = 1"
    by (simp_all add: dict_get_def)
  with s h e' show ?thesis by simp
qed

lemma completed_projections:
  assumes "outcome env a = Inr ()"
  obtains b l r rm pm x y z c p where
    "read_csv env (input_annotations_boxes a) = Inr b"
    "read_csv env (input_annotations_labels a) = Inr l"
    "load_labelmap (read_label_map env) (input_relationship_labelmap a) = Inr r"
    "evaluations Relation (run_trace env a) = [(swap_labelmap_dict r, Inr rm)]"
    "evaluations Phrase (run_trace env a) = [(swap_labelmap_dict r, Inr pm)]"
    "dict_get rm ''VRDMetric_Relationships_mAP@0.5IOU'' = Some x"
    "dict_get rm ''VRDMetric_Relationships_Recall@50@0.5IOU'' = Some y"
    "dict_get pm ''VRDMetric_Phrases_mAP@0.5IOU'' = Some z"
    "set (metric_events rm) \<subseteq> set (run_trace env a)"
    "set (metric_events pm) \<subseteq> set (run_trace env a)"
    "LogValue ''eval_epoch.score'' (x * 0.4 + y * 0.2 + z * 0.4) \<in> set (run_trace env a)"
    "\<And>pr. groundtruth_ids pr (run_trace env a) = group_keys (concat_frames b l)"
    "\<And>pr e. e \<in> set (run_trace env a) \<Longrightarrow> \<not> raised pr e"
    "load_labelmap (read_label_map env) (input_class_labelmap a) = Inr c"
    "read_csv env (input_predictions a) = Inr p"
    "\<And>pr i g out. AddGroundTruth pr i g out \<in> set (run_trace env a) \<Longrightarrow>
        \<exists>fr. build_groundtruth_vrd_dictionary env fr c r = Inr g"
    "\<And>pr i d out. AddDetected pr i d out \<in> set (run_trace env a) \<Longrightarrow>
        \<exists>fr. build_predictions_vrd_dictionary env fr c r = Inr d"
    "Flush \<in> set (run_trace env a)"
proof -
  from completed_run [OF assms] show ?thesis
  proof (cases rule: main_completed)
    case (1 b l c r groups p pgroups gs ds rm pm x y z ep)
    let ?pre = "[logger_create_event a, LogMessage ''Begin evaluation'']"
    let ?ev = "[Evaluate Relation (swap_labelmap_dict r) (Inr rm),
                Evaluate Phrase (swap_labelmap_dict r) (Inr pm)]"
    let ?tl = "[LogValue ''eval_epoch.score'' (x * 0.4 + y * 0.2 + z * 0.4),
               LogValue ''eval_epoch.epoch'' ep, Flush, LogMessage ''End evaluation'']"
    have tr: "run_trace env a = ?pre @ gs @ ds @ ?ev @ metric_events rm @ metric_events pm @ ?tl"
      using 1(14) by (simp add: run_trace_def initial_world_def)
    have kg: "\<forall>e \<in> set gs. kind e = GroundTruthCall" "\<forall>e \<in> set ds. kind e = DetectedCall"
      using 1(9) 1(10) by (auto simp: groundtruth_segment_def detected_segment_def)
    have km: "\<forall>e \<in> set (metric_events m). kind e = LoggerCall" for m :: "(string, real) dict"
      by (auto simp: metric_events_def kind_simps)
    have kp: "\<forall>e \<in> set ?pre. kind e = LoggerCall" "\<forall>e \<in> set ?tl. kind e = LoggerCall"
      "\<forall>e \<in> set ?ev. kind e = EvaluateCall"
      by (auto simp: kind_simps logger_create_event_def)
    have ev: "evaluations pr ?pre = []" "evaluations pr gs = []" "evaluations pr ds = []"
      "evaluations pr (metric_events rm) = []" "evaluations pr (metric_events pm) = []"
      "evaluations pr ?tl = []" for pr
      using kg km [of rm] km [of pm]
      by (auto intro!: evaluations_other simp: kind_simps logger_create_event_def)
    have e1: "evaluations Relation (run_trace env a) = [(swap_labelmap_dict r, Inr rm)]"
      and e2: "evaluations Phrase (run_trace env a) = [(swap_labelmap_dict r, Inr pm)]"
      unfolding tr evaluations_append ev by (simp_all add: proj_simps)
    have gets: "dict_get rm ''VRDMetric_Relationships_mAP@0.5IOU'' = Some x"
      "dict_get rm ''VRDMetric_Relationships_Recall@50@0.5IOU'' = Some y"
      "dict_get pm ''VRDMetric_Phrases_mAP@0.5IOU'' = Some z"
      using 1(11) 1(12) 1(13) by (auto simp: getitem_def split: option.splits)
    have sub: "set (metric_events rm) \<subseteq> set (run_trace env a)"
      "set (metric_events pm) \<subseteq> set (run_trace env a)"
      "LogValue ''eval_epoch.score'' (x * 0.4 + y * 0.2 + z * 0.4) \<in> set (run_trace env a)"
      unfolding tr by auto
    have gi: "groundtruth_ids pr ?pre = []" "groundtruth_ids pr ds = []"
      "groundtruth_ids pr ?ev = []"
      "groundtruth_ids pr (metric_events rm) = []" "groundtruth_ids pr (metric_events pm) = []"
      "groundtruth_ids pr ?tl = []" for pr
      using kg km [of rm] km [of pm]
      by (auto intro!: groundtruth_ids_other simp: kind_simps logger_create_event_def)
    have gk: "groundtruth_ids pr gs = group_keys (concat_frames b l)" for pr
      using 1(9) by (cases pr) (auto simp: groundtruth_segment_def)
    have ids: "groundtruth_ids pr (run_trace env a) = group_keys (concat_frames b l)" for pr
      unfolding tr groundtruth_ids_append gi gk by simp
    have nr: "\<not> raised pr e" if "e \<in> set (run_trace env a)" for pr e
    proof -
      from that consider "e \<in> set gs" | "e \<in> set ds"
        | "e \<in> set ?pre \<union> set ?ev \<union> set (metric_events rm) \<union> set (metric_events pm) \<union> set ?tl"
        unfolding tr by auto
      then show ?thesis
      proof cases
        case 1
        with \<open>groundtruth_segment _ _ _ gs\<close> show ?thesis
          by (cases pr) (auto simp: groundtruth_segment_def)
      next
        case 2
        with \<open>detected_segment _ _ ds\<close> show ?thesis
          by (cases pr) (auto simp: detected_segment_def)
      next
        case 3
        with km [of rm] km [of pm] kp have "kind e = LoggerCall \<or> kind e = EvaluateCall"
          by blast
        then show ?thesis by (rule raised_other)
      qed
    qed
    have bg: "\<exists>fr. build_groundtruth_vrd_dictionary env fr c r = Inr g"
      if "AddGroundTruth pr i g out \<in> set (run_trace env a)" for pr i g out
    proof -
      from that km [of rm] km [of pm] kg(2) have "AddGroundTruth pr i g out \<in> set gs"
        unfolding tr by (auto simp: kind_simps logger_create_event_def dest!: bspec)
      with \<open>groundtruth_segment _ _ _ gs\<close> show ?thesis
        unfolding groundtruth_segment_def built_groundtruth_def by blast
    qed
    have bd: "\<exists>fr. build_predictions_vrd_dictionary env fr c r = Inr d"
      if "AddDetected pr i d out \<in> set (run_trace env a)" for pr i d out
    proof -
      from that km [of rm] km [of pm] kg(1) have "AddDetected pr i d out \<in> set ds"
        unfolding tr by (auto simp: kind_simps logger_create_event_def dest!: bspec)
      with \<open>detected_segment _ _ ds\<close> show ?thesis
        unfolding detected_segment_def built_predictions_def by blast
    qed
    have fl: "Flush \<in> set (run_trace env a)"
      unfolding tr by simp
    show ?thesis
      by (rule that [OF 1(2) 1(3) 1(5) e1 e2 gets sub ids nr 1(4) 1(7) bg bd fl])
  qed
qed

text \<open>
  C2, as amended: in every run of \<^verbatim>\<open>main\<close>, also one that ends in an exception, every
  groundtruth ingestion call comes before every detection ingestion call, every ingestion
  call comes before every \<^verbatim>\<open>evaluate\<close> call, and each evaluator's \<^verbatim>\<open>evaluate\<close> is
  called at most once; in a run that completes it is called exactly once.
\<close>

theorem call_order:
  "all_before (\<lambda>e. kind e = GroundTruthCall) (\<lambda>e. kind e = DetectedCall) (run_trace env a)
   \<and> all_before (\<lambda>e. kind e = DetectedCall) (\<lambda>e. kind e = EvaluateCall) (run_trace env a)
   \<and> all_before (\<lambda>e. kind e = GroundTruthCall) (\<lambda>e. kind e = EvaluateCall) (run_trace env a)
   \<and> length (evaluations Relation (run_trace env a)) \<le> 1
   \<and> length (evaluations Phrase (run_trace env a)) \<le> 1
   \<and> (outcome env a = Inr () \<longrightarrow>
        length (evaluations Relation (run_trace env a)) = 1
        \<and> length (evaluations Phrase (run_trace env a)) = 1)"
proof (intro conjI impI)
  note shape = run_trace_shape [of env a]
  show "all_before (\<lambda>e. kind e = GroundTruthCall) (\<lambda>e. kind e = DetectedCall) (run_trace env a)"
    by (rule shape_order [OF shape]) simp
  show "all_before (\<lambda>e. kind e = DetectedCall) (\<lambda>e. kind e = EvaluateCall) (run_trace env a)"
    by (rule shape_order [OF shape]) simp
  show "all_before (\<lambda>e. kind e = GroundTruthCall) (\<lambda>e. kind e = EvaluateCall) (run_trace env a)"
    by (rule shape_order [OF shape]) simp
  show "length (evaluations Relation (run_trace env a)) \<le> 1"
    by (rule shape_evaluations [OF shape])
  show "length (evaluations Phrase (run_trace env a)) \<le> 1"
    by (rule shape_evaluations [OF shape])
next
  assume "outcome env a = Inr ()"
  then show "length (evaluations Relation (run_trace env a)) = 1"
    by (rule completed_projections) simp
next
  assume "outcome env a = Inr ()"
  then show "length (evaluations Phrase (run_trace env a)) = 1"
    by (rule completed_projections) simp
qed

theorem call_order_witness:
  "outcome demo_env demo_args = Inr ()
   \<and> length (evaluations Relation (run_trace demo_env demo_args)) = 1
   \<and> length (evaluations Phrase (run_trace demo_env demo_args)) = 1"
proof -
  have h: "outcome demo_env demo_args = Inr ()"
    by (simp add: outcome_def demo_run)
  from call_order [of demo_env demo_args] h show ?thesis
    by blast
qed

lemma demo_missing_trace:
  "run_trace demo_env (demo_args\<lparr>input_predictions := ''missing.csv''\<rparr>) =
     [LoggerCreate ''out'' ''run'', LogMessage ''Begin evaluation'',
      AddGroundTruth Relation 4 [40, 41] None, AddGroundTruth Phrase 4 [40, 41] None,
      AddGroundTruth Relation 7 [70, 71] None, AddGroundTruth Phrase 7 [70, 71] None]"
  "outcome demo_env (demo_args\<lparr>input_predictions := ''missing.csv''\<rparr>)
     = Inl (FileNotFoundError ''missing.csv'')"
  by (simp_all add: run_trace_def outcome_def demo_missing_predictions)

theorem call_order_counterexample:
  "outcome demo_env (demo_args\<lparr>input_predictions := ''missing.csv''\<rparr>)
     = Inl (FileNotFoundError ''missing.csv'')
   \<and> evaluations Relation (run_trace demo_env (demo_args\<lparr>input_predictions := ''missing.csv''\<rparr>)) = []
   \<and> evaluations Phrase (run_trace demo_env (demo_args\<lparr>input_predictions := ''missing.csv''\<rparr>)) = []"
  by (simp add: demo_missing_trace evaluations_def)

text \<open>
  C3: when \<^verbatim>\<open>main\<close> completes, the relation evaluator returned a mapping with the keys
  \<^verbatim>\<open>VRDMetric_Relationships_mAP@0.5IOU\<close> and \<^verbatim>\<open>VRDMetric_Relationships_Recall@50@0.5IOU\<close>,
  the phrase evaluator one with \<^verbatim>\<open>VRDMetric_Phrases_mAP@0.5IOU\<close>, each of the three values
  was logged under its key prefixed with \<^verbatim>\<open>eval_epoch.\<close>, and a composite was logged under
  \<^verbatim>\<open>eval_epoch.score\<close>; all of them are real numbers.
\<close>

theorem metric_keys:
  assumes "outcome env a = Inr ()"
  shows "\<exists>rel rm pm (x::real) (y::real) (z::real) (s::real).
      evaluations Relation (run_trace env a) = [(rel, Inr rm)]
    \<and> evaluations Phrase (run_trace env a) = [(rel, Inr pm)]
    \<and> dict_get rm ''VRDMetric_Relationships_mAP@0.5IOU'' = Some x
    \<and> dict_get rm ''VRDMetric_Relationships_Recall@50@0.5IOU'' = Some y
    \<and> dict_get pm ''VRDMetric_Phrases_mAP@0.5IOU'' = Some z
    \<and> x \<in> set (logged ''eval_epoch.VRDMetric_Relationships_mAP@0.5IOU'' (run_trace env a))
    \<and> y \<in> set (logged ''eval_epoch.VRDMetric_Relationships_Recall@50@0.5IOU'' (run_trace env a))
    \<and> z \<in> set (logged ''eval_epoch.VRDMetric_Phrases_mAP@0.5IOU'' (run_trace env a))
    \<and> s \<in> set (logged ''eval_epoch.score'' (run_trace env a))"
  using assms
proof (cases rule: completed_projections)
  case (1 b l r rm pm x y z c p)
  have mem: "LogValue (''eval_epoch.'' @ k) v \<in> set (metric_events m)"
    if "dict_get m k = Some v" for m k and v :: real
    using that by (force simp: metric_events_def dict_get_def dest!: map_of_SomeD)
  have "x \<in> set (logged ''eval_epoch.VRDMetric_Relationships_mAP@0.5IOU'' (run_trace env a))"
    using mem [OF 1(6)] 1(9) by (auto intro!: logged_mem)
  moreover have "y \<in> set (logged ''eval_epoch.VRDMetric_Relationships_Recall@50@0.5IOU'' (run_trace env a))"
    using mem [OF 1(7)] 1(9) by (auto intro!: logged_mem)
  moreover have "z \<in> set (logged ''eval_epoch.VRDMetric_Phrases_mAP@0.5IOU'' (run_trace env a))"
    using mem [OF 1(8)] 1(10) by (auto intro!: logged_mem)
  moreover have "x * 0.4 + y * 0.2 + z * 0.4 \<in> set (logged ''eval_epoch.score'' (run_trace env a))"
    using 1(11) by (rule logged_mem)
  ultimately show ?thesis
    using 1(4) 1(5) 1(6) 1(7) 1(8) by blast
qed

theorem metric_keys_witness:
  "outcome demo_env demo_args = Inr ()
   \<and> logged ''eval_epoch.VRDMetric_Relationships_mAP@0.5IOU'' (run_trace demo_env demo_args) \<noteq> []
   \<and> logged ''eval_epoch.VRDMetric_Relationships_Recall@50@0.5IOU'' (run_trace demo_env demo_args) \<noteq> []
   \<and> logged ''eval_epoch.VRDMetric_Phrases_mAP@0.5IOU'' (run_trace demo_env demo_args) \<noteq> []
   \<and> logged ''eval_epoch.score'' (run_trace demo_env demo_args) \<noteq> []"
proof -
  have h: "outcome demo_env demo_args = Inr ()"
    by (simp add: outcome_def demo_run)
  from metric_keys [OF h] h show ?thesis
    by fastforce
qed







subsection \<open>The duplicate check\<close>

lemma checked_add:
  assumes "\<And>pr s i g. add_single_ground_truth_image_info env pr s i g \<noteq> Inl DuplicateImageError"
    and "i \<notin> set (fst s)"
  shows "add_single_ground_truth_image_info (with_duplicate_check env) pr s i g
           \<noteq> Inl DuplicateImageError"
    and "add_single_ground_truth_image_info (with_duplicate_check env) pr s i g = Inr s'
           \<Longrightarrow> fst s' = i # fst s"
  using assms(2) assms(1) [of pr "snd s" i g]
  by (auto simp: with_duplicate_check_def split: sum.splits)

lemma checked_loop:
  assumes nodup:
    "\<And>pr s i g. add_single_ground_truth_image_info env pr s i g \<noteq> Inl DuplicateImageError"
  shows "foreach groups (ingest_groundtruth (with_duplicate_check env) c r) w = (res, w') \<Longrightarrow>
     distinct (map fst groups) \<Longrightarrow>
     (\<forall>pr. set (fst (evaluator pr w)) \<inter> set (map fst groups) = {}) \<Longrightarrow>
     trace w' = trace w @ gs \<Longrightarrow>
     AddGroundTruth pr i g (Some DuplicateImageError) \<notin> set gs"
proof (induction groups arbitrary: w gs)
  case Nil
  then show ?case by (simp add: returns_def)
next
  case (Cons x groups)
  obtain i0 fr where x: "x = (i0, fr)" by (cases x)
  have fresh: "i0 \<notin> set (fst (evaluator pr' w))" for pr'
    using Cons.prems(3) x by auto
  from Cons.prems(1) have run:
    "bind (ingest_groundtruth (with_duplicate_check env) c r (i0, fr))
       (\<lambda>_. foreach groups (ingest_groundtruth (with_duplicate_check env) c r)) w = (res, w')"
    by (simp add: x)
  from run show ?case
  proof (cases rule: bind_cases)
    case (fail e)
    from fail(1) show ?thesis
    proof (cases rule: ingest_groundtruth_cases)
      case (build e')
      with Cons.prems(4) show ?thesis by simp
    next
      case (relation g0 e')
      from checked_add(1) [OF nodup fresh, of Relation Relation g0] relation(4)
      have "e' \<noteq> DuplicateImageError" by auto
      with relation(3) Cons.prems(4) show ?thesis by auto
    next
      case (phrase g0 e')
      from checked_add(1) [OF nodup fresh, of Phrase Phrase g0] phrase(4)
      have "e' \<noteq> DuplicateImageError" by auto
      with phrase(3) Cons.prems(4) show ?thesis by auto
    next
      case (complete g0 s1 s2)
      with fail(2) show ?thesis by simp
    qed
  next
    case (ok u w1)
    from ok(1) obtain g0 s1 s2 where
      t1: "trace w1 = trace w @ [AddGroundTruth Relation i0 g0 None, AddGroundTruth Phrase i0 g0 None]"
      and a1: "add_single_ground_truth_image_info (with_duplicate_check env) Relation
                 (evaluator Relation w) i0 g0 = Inr s1"
      and a2: "add_single_ground_truth_image_info (with_duplicate_check env) Phrase
                 (evaluator Phrase w) i0 g0 = Inr s2"
      and e1: "evaluator Relation w1 = s1" and e2: "evaluator Phrase w1 = s2"
      by (cases rule: ingest_groundtruth_cases) auto
    have f1: "fst s1 = i0 # fst (evaluator Relation w)"
      using checked_add(2) [OF nodup fresh a1] .
    have f2: "fst s2 = i0 # fst (evaluator Phrase w)"
      using checked_add(2) [OF nodup fresh a2] .
    have seen: "set (fst (evaluator pr' w1)) = insert i0 (set (fst (evaluator pr' w)))" for pr'
      by (cases pr') (simp_all add: e1 e2 f1 f2)
    have inv: "\<forall>pr'. set (fst (evaluator pr' w1)) \<inter> set (map fst groups) = {}"
      using Cons.prems(2) Cons.prems(3) x by (auto simp: seen)
    from groundtruth_loop [OF ok(2)] obtain gs' where gs': "trace w' = trace w1 @ gs'"
      by blast
    with Cons.prems(4) t1 have gs: "gs = [AddGroundTruth Relation i0 g0 None, AddGroundTruth Phrase i0 g0 None] @ gs'"
      by simp
    from Cons.prems(2) have d: "distinct (map fst groups)" by simp
    from Cons.IH [OF ok(2) d inv gs'] show ?thesis
      by (simp add: gs)
  qed
qed

lemma checked_run:
  assumes nodup:
    "\<And>pr s i g. add_single_ground_truth_image_info env pr s i g \<noteq> Inl DuplicateImageError"
  shows "AddGroundTruth pr i g (Some DuplicateImageError) \<notin> set (run_trace (with_duplicate_check env) a)"
  using run_trace_shape [of "with_duplicate_check env" a]
proof (cases rule: shape_parts)
  case (1 pre gs ds ev post keys gres dres gbuilt dbuilt)
  have other: "AddGroundTruth pr i g (Some DuplicateImageError) \<notin> set pre \<union> set ds \<union> set ev \<union> set post"
    using 1(10) 1(12) 1(13) 1(8) by (auto simp: kind_simps dest!: bspec)
  have "AddGroundTruth pr i g (Some DuplicateImageError) \<notin> set gs"
    using 1(5) unfolding groundtruth_phase_def
  proof (elim disjE exE conjE)
    assume "gs = []"
    then show ?thesis by simp
  next
    fix c r groups w1 res w2
    assume loop: "foreach groups (ingest_groundtruth (with_duplicate_check env) c r) w1 = (res, w2)"
      and tr: "trace w2 = trace w1 @ gs"
      and fr: "relation_evaluator w1 = new_evaluator (with_duplicate_check env) Relation"
        "phrase_evaluator w1 = new_evaluator (with_duplicate_check env) Phrase"
      and d: "distinct (map fst groups)"
    have "fst (evaluator pr' w1) = []" for pr'
      using fr by (cases pr') (simp_all add: evaluator_def with_duplicate_check_def)
    then have inv: "\<forall>pr'. set (fst (evaluator pr' w1)) \<inter> set (map fst groups) = {}"
      by simp
    from checked_loop [OF nodup loop d inv tr] show ?thesis .
  qed
  with other show ?thesis by (simp add: 1(1))
qed

text \<open>
  C7: in every run of \<^verbatim>\<open>main\<close> the image ids of the groundtruth ingestion calls on an
  evaluator are pairwise distinct; when the run completes they are the distinct image ids
  of the annotation rows, each once, in ascending order. Hence a duplicate check as the
  spec describes it never fires: with evaluators that raise DuplicateImageError for an
  image id they were given groundtruth for before, no groundtruth ingestion call of
  \<^verbatim>\<open>main\<close> raises that error, unless the evaluator beneath the check raises it itself.
\<close>

theorem groundtruth_once_per_image:
  "distinct (groundtruth_ids Relation (run_trace env a))
   \<and> distinct (groundtruth_ids Phrase (run_trace env a))
   \<and> (outcome env a = Inr () \<longrightarrow>
        (\<exists>b l. read_csv env (input_annotations_boxes a) = Inr b
             \<and> read_csv env (input_annotations_labels a) = Inr l
             \<and> groundtruth_ids Relation (run_trace env a) = group_keys (concat_frames b l)
             \<and> groundtruth_ids Phrase (run_trace env a) = group_keys (concat_frames b l)))
   \<and> ((\<forall>pr s i g. add_single_ground_truth_image_info env pr s i g \<noteq> Inl DuplicateImageError) \<longrightarrow>
        (\<forall>pr i g. AddGroundTruth pr i g (Some DuplicateImageError)
                     \<notin> set (run_trace (with_duplicate_check env) a)))"
proof (intro conjI impI allI)
  show "distinct (groundtruth_ids Relation (run_trace env a))"
    by (rule shape_groundtruth_ids [OF run_trace_shape])
  show "distinct (groundtruth_ids Phrase (run_trace env a))"
    by (rule shape_groundtruth_ids [OF run_trace_shape])
next
  assume "outcome env a = Inr ()"
  then show "\<exists>b l. read_csv env (input_annotations_boxes a) = Inr b
             \<and> read_csv env (input_annotations_labels a) = Inr l
             \<and> groundtruth_ids Relation (run_trace env a) = group_keys (concat_frames b l)
             \<and> groundtruth_ids Phrase (run_trace env a) = group_keys (concat_frames b l)"
    by (rule completed_projections) blast
next
  fix pr i g
  assume "\<forall>pr s i g. add_single_ground_truth_image_info env pr s i g \<noteq> Inl DuplicateImageError"
  then show "AddGroundTruth pr i g (Some DuplicateImageError)
               \<notin> set (run_trace (with_duplicate_check env) a)"
    by (intro checked_run) simp
qed

theorem groundtruth_once_per_image_witness:
  "outcome demo_env demo_args = Inr ()
   \<and> groundtruth_ids Relation (run_trace demo_env demo_args) = [4, 7]
   \<and> groundtruth_ids Phrase (run_trace demo_env demo_args) = [4, 7]
   \<and> distinct (groundtruth_ids Relation (run_trace demo_env demo_args))
   \<and> AddGroundTruth Relation 4 [40, 41] (Some DuplicateImageError)
        \<notin> set (run_trace (with_duplicate_check demo_env) demo_args)"
proof -
  have h1: "outcome demo_env demo_args = Inr ()"
    by (simp add: outcome_def demo_run)
  have h2: "\<forall>pr s i g. add_single_ground_truth_image_info demo_env pr s i g \<noteq> Inl DuplicateImageError"
    by (simp add: demo_env_simps)
  note t = groundtruth_once_per_image [of demo_env demo_args]
  have v: "groundtruth_ids Relation (run_trace demo_env demo_args) = [4, 7]"
    "groundtruth_ids Phrase (run_trace demo_env demo_args) = [4, 7]"
    by (simp_all add: demo_trace groundtruth_ids_def)
  from t h2 have "AddGroundTruth Relation 4 [40, 41] (Some DuplicateImageError)
        \<notin> set (run_trace (with_duplicate_check demo_env) demo_args)"
    by blast
  with t h1 v show ?thesis by blast
qed

subsection \<open>Loading a label map\<close>

lemma load_labelmap_Inl: "read_items path = Inl e \<Longrightarrow> load_labelmap read_items path = Inl e"
  by (simp add: load_labelmap_def)

lemma load_labelmap_Inr:
  assumes "read_items path = Inr items"
  shows "\<exists>d. load_labelmap read_items path = Inr d
           \<and> is_dict d
           \<and> set (map fst d) = set (map item_name items)
           \<and> (\<forall>n. dict_get d n = map_of (rev (map (\<lambda>it. (item_name it, item_id it)) items)) n)
           \<and> (distinct (map item_name items) \<longrightarrow> d = map (\<lambda>it. (item_name it, item_id it)) items)"
proof -
  let ?d = "fold (\<lambda>item d. dict_set d (item_name item) (item_id item)) items []"
  have 1: "load_labelmap read_items path = Inr ?d"
    using assms by (simp add: load_labelmap_def)
  have 2: "is_dict ?d"
    using distinct_fold_items [of "[]" items] by (simp add: is_dict_def)
  have 3: "set (map fst ?d) = set (map item_name items)"
    using keys_fold_items [of items "[]"] by simp
  have 4: "\<forall>n. dict_get ?d n = map_of (rev (map (\<lambda>it. (item_name it, item_id it)) items)) n"
    by (simp add: dict_get_def map_of_fold_items)
  have 5: "distinct (map item_name items) \<longrightarrow> ?d = map (\<lambda>it. (item_name it, item_id it)) items"
    using fold_items_distinct [of items "[]"] by simp
  from 1 2 3 4 5 show ?thesis by blast
qed


text \<open>
  C6, as amended: when the file parses, \<^verbatim>\<open>_load_labelmap\<close> returns a dictionary from item
  name to item id with one entry per distinct item name, whose value is the id of the last
  item of that name; when the item names are pairwise distinct this is one entry per item,
  keyed by the item's name with the item's id as value, in the order of the file. When the
  file is absent or does not parse, the exception is passed on. \<^verbatim>\<open>main\<close> loads two such
  maps, the class map from \<^verbatim>\<open>--input_class_labelmap\<close> and the relationship map from
  \<^verbatim>\<open>--input_relationship_labelmap\<close>; both are given to the dictionary builders, and every
  \<^verbatim>\<open>evaluate\<close> call is given \<^verbatim>\<open>_swap_labelmap_dict\<close> of the relationship map.
\<close>

theorem load_labelmap_entries:
  "(read_items path = Inl e \<longrightarrow> load_labelmap read_items path = Inl e)
   \<and> (read_items path = Inr items \<longrightarrow>
        (\<exists>d. load_labelmap read_items path = Inr d
           \<and> is_dict d
           \<and> set (map fst d) = set (map item_name items)
           \<and> (\<forall>n. dict_get d n = map_of (rev (map (\<lambda>it. (item_name it, item_id it)) items)) n)
           \<and> (distinct (map item_name items) \<longrightarrow> d = map (\<lambda>it. (item_name it, item_id it)) items)))
   \<and> (\<forall>pr rel res. Evaluate pr rel res \<in> set (run_trace env a) \<longrightarrow>
        (\<exists>r. load_labelmap (read_label_map env) (input_relationship_labelmap a) = Inr r
            \<and> rel = swap_labelmap_dict r))
   \<and> (outcome env a = Inr () \<longrightarrow>
        (\<exists>c r. load_labelmap (read_label_map env) (input_class_labelmap a) = Inr c
            \<and> load_labelmap (read_label_map env) (input_relationship_labelmap a) = Inr r
            \<and> (\<forall>pr i g out. AddGroundTruth pr i g out \<in> set (run_trace env a) \<longrightarrow>
                  (\<exists>fr. build_groundtruth_vrd_dictionary env fr c r = Inr g))
            \<and> (\<forall>pr i d out. AddDetected pr i d out \<in> set (run_trace env a) \<longrightarrow>
                  (\<exists>fr. build_predictions_vrd_dictionary env fr c r = Inr d))
            \<and> map fst (evaluations Relation (run_trace env a)) = [swap_labelmap_dict r]
            \<and> map fst (evaluations Phrase (run_trace env a)) = [swap_labelmap_dict r]))"
proof (intro conjI impI allI)
  assume "read_items path = Inl e"
  then show "load_labelmap read_items path = Inl e" by (rule load_labelmap_Inl)
next
  assume "read_items path = Inr items"
  then show "\<exists>d. load_labelmap read_items path = Inr d
           \<and> is_dict d
           \<and> set (map fst d) = set (map item_name items)
           \<and> (\<forall>n. dict_get d n = map_of (rev (map (\<lambda>it. (item_name it, item_id it)) items)) n)
           \<and> (distinct (map item_name items) \<longrightarrow> d = map (\<lambda>it. (item_name it, item_id it)) items)"
    by (rule load_labelmap_Inr)
next
  fix pr rel res
  assume "Evaluate pr rel res \<in> set (run_trace env a)"
  with run_trace_shape show "\<exists>r. load_labelmap (read_label_map env) (input_relationship_labelmap a) = Inr r
            \<and> rel = swap_labelmap_dict r"
    by (rule shape_relationships)
next
  assume "outcome env a = Inr ()"
  then show "\<exists>c r. load_labelmap (read_label_map env) (input_class_labelmap a) = Inr c
            \<and> load_labelmap (read_label_map env) (input_relationship_labelmap a) = Inr r
            \<and> (\<forall>pr i g out. AddGroundTruth pr i g out \<in> set (run_trace env a) \<longrightarrow>
                  (\<exists>fr. build_groundtruth_vrd_dictionary env fr c r = Inr g))
            \<and> (\<forall>pr i d out. AddDetected pr i d out \<in> set (run_trace env a) \<longrightarrow>
                  (\<exists>fr. build_predictions_vrd_dictionary env fr c r = Inr d))
            \<and> map fst (evaluations Relation (run_trace env a)) = [swap_labelmap_dict r]
            \<and> map fst (evaluations Phrase (run_trace env a)) = [swap_labelmap_dict r]"
  proof (cases rule: completed_projections)
    case (1 b l r rm pm x y z c p)
    show ?thesis
      using 1(3) 1(14) 1(16) 1(17) by (intro exI [of _ c] exI [of _ r]) (simp add: 1(4) 1(5))
  qed
qed

theorem load_labelmap_entries_witness:
  "read_label_map demo_env ''labelmap.pbtxt''
     = Inr [\<lparr>item_name = ''at'', item_id = 1\<rparr>, \<lparr>item_name = ''on'', item_id = 2\<rparr>]
   \<and> distinct (map item_name [\<lparr>item_name = ''at'', item_id = 1\<rparr>, \<lparr>item_name = ''on'', item_id = 2\<rparr>])
   \<and> load_labelmap (read_label_map demo_env) ''labelmap.pbtxt'' = Inr [(''at'', 1), (''on'', 2)]
   \<and> outcome demo_env demo_args = Inr ()
   \<and> map fst (evaluations Relation (run_trace demo_env demo_args)) = [[(1, ''at''), (2, ''on'')]]"
proof -
  let ?items = "[\<lparr>item_name = ''at'', item_id = 1\<rparr>, \<lparr>item_name = ''on'', item_id = 2\<rparr>]"
  have h1: "read_label_map demo_env ''labelmap.pbtxt'' = Inr ?items"
    by (simp add: demo_env_simps)
  have h2: "distinct (map item_name ?items)" by simp
  have h3: "outcome demo_env demo_args = Inr ()"
    by (simp add: outcome_def demo_run)
  note t = load_labelmap_entries [of "read_label_map demo_env" "''labelmap.pbtxt''"
      "FileNotFoundError ''labelmap.pbtxt''" ?items demo_env demo_args]
  from t [THEN conjunct2, THEN conjunct1, THEN mp, OF h1] obtain d where
    d: "load_labelmap (read_label_map demo_env) ''labelmap.pbtxt'' = Inr d"
    "distinct (map item_name ?items) \<longrightarrow> d = map (\<lambda>it. (item_name it, item_id it)) ?items"
    by blast
  from d h2 have l: "load_labelmap (read_label_map demo_env) ''labelmap.pbtxt'' = Inr [(''at'', 1), (''on'', 2)]"
    by simp
  from t [THEN conjunct2, THEN conjunct2, THEN conjunct2, THEN mp, OF h3] obtain r where
    r: "load_labelmap (read_label_map demo_env) (input_relationship_labelmap demo_args) = Inr r"
    "map fst (evaluations Relation (run_trace demo_env demo_args)) = [swap_labelmap_dict r]"
    by (elim exE conjE)
  from r(1) l have "r = [(''at'', 1), (''on'', 2)]"
    by (simp add: demo_args_def)
  with r(2) have "map fst (evaluations Relation (run_trace demo_env demo_args)) = [[(1, ''at''), (2, ''on'')]]"
    by (simp add: swap_labelmap_dict_def)
  with h1 h2 h3 l show ?thesis by blast
qed

theorem load_labelmap_entries_counterexample:
  "load_labelmap (\<lambda>path. Inr [\<lparr>item_name = ''a'', item_id = 1\<rparr>, \<lparr>item_name = ''a'', item_id = 2\<rparr>])
     ''labelmap.pbtxt'' = Inr [(''a'', 2)]"
  by (simp add: load_labelmap_def)

lemma write_metrics_file_trace:
  "trace (snd (write_metrics_file a rm pm w))
     = trace w @ [OpenForWriting (output_metrics a), WriteCsv (output_metrics a) rm,
                  WriteCsv (output_metrics a) pm]"
  by (simp add: write_metrics_file_def emit_def)

text \<open>
  C10: \<^verbatim>\<open>main\<close> looks at \<^verbatim>\<open>--output_metrics\<close> only through its directory name and through
  the part of its base name before the first \<^verbatim>\<open>.json\<close>: two paths that agree on both give
  the same run. The two are the arguments of the one call that creates the Logger, the
  first thing a run does. No run opens a file for writing or writes a dictionary to one,
  at the output path or anywhere else: the statements that would are the comment of lines
  143 to 145. In a run that completes, every metric the two \<^verbatim>\<open>evaluate\<close> calls returned
  and the composite score have been given to the Logger by \<^verbatim>\<open>log_value\<close>, and the Logger
  has been flushed.
\<close>

theorem output_metrics_names_the_logger:
  "(dirname p = dirname q
      \<and> split_first ''.json'' (basename p) = split_first ''.json'' (basename q) \<longrightarrow>
      main env (a\<lparr>output_metrics := p\<rparr>) = main env (a\<lparr>output_metrics := q\<rparr>))
   \<and> (\<exists>tl. run_trace env a
              = LoggerCreate (dirname (output_metrics a))
                  (split_first ''.json'' (basename (output_metrics a))) # tl
           \<and> (\<forall>d n. LoggerCreate d n \<notin> set tl))
   \<and> (\<forall>path. OpenForWriting path \<notin> set (run_trace env a))
   \<and> (\<forall>path metrics. WriteCsv path metrics \<notin> set (run_trace env a))
   \<and> (outcome env a = Inr () \<longrightarrow>
        (\<exists>rel rm pm x y z.
            evaluations Relation (run_trace env a) = [(rel, Inr rm)]
          \<and> evaluations Phrase (run_trace env a) = [(rel, Inr pm)]
          \<and> set (metric_events rm) \<subseteq> set (run_trace env a)
          \<and> set (metric_events pm) \<subseteq> set (run_trace env a)
          \<and> dict_get rm ''VRDMetric_Relationships_mAP@0.5IOU'' = Some x
          \<and> dict_get rm ''VRDMetric_Relationships_Recall@50@0.5IOU'' = Some y
          \<and> dict_get pm ''VRDMetric_Phrases_mAP@0.5IOU'' = Some z
          \<and> LogValue ''eval_epoch.score'' (x * 0.4 + y * 0.2 + z * 0.4) \<in> set (run_trace env a)
          \<and> Flush \<in> set (run_trace env a)))"
proof (intro conjI impI allI)
  assume "dirname p = dirname q
      \<and> split_first ''.json'' (basename p) = split_first ''.json'' (basename q)"
  then show "main env (a\<lparr>output_metrics := p\<rparr>) = main env (a\<lparr>output_metrics := q\<rparr>)"
    by (simp add: main_def)
next
  from shape_logger_create [OF run_trace_shape, of env a]
  show "\<exists>tl. run_trace env a
              = LoggerCreate (dirname (output_metrics a))
                  (split_first ''.json'' (basename (output_metrics a))) # tl
           \<and> (\<forall>d n. LoggerCreate d n \<notin> set tl)"
    by (simp add: logger_create_event_def)
next
  fix path
  from shape_no_file [OF run_trace_shape, of env a]
  show "OpenForWriting path \<notin> set (run_trace env a)"
    by (force simp: kind_def)
next
  fix path metrics
  from shape_no_file [OF run_trace_shape, of env a]
  show "WriteCsv path metrics \<notin> set (run_trace env a)"
    by (force simp: kind_def)
next
  assume "outcome env a = Inr ()"
  then show "\<exists>rel rm pm x y z.
            evaluations Relation (run_trace env a) = [(rel, Inr rm)]
          \<and> evaluations Phrase (run_trace env a) = [(rel, Inr pm)]
          \<and> set (metric_events rm) \<subseteq> set (run_trace env a)
          \<and> set (metric_events pm) \<subseteq> set (run_trace env a)
          \<and> dict_get rm ''VRDMetric_Relationships_mAP@0.5IOU'' = Some x
          \<and> dict_get rm ''VRDMetric_Relationships_Recall@50@0.5IOU'' = Some y
          \<and> dict_get pm ''VRDMetric_Phrases_mAP@0.5IOU'' = Some z
          \<and> LogValue ''eval_epoch.score'' (x * 0.4 + y * 0.2 + z * 0.4) \<in> set (run_trace env a)
          \<and> Flush \<in> set (run_trace env a)"
  proof (cases rule: completed_projections)
    case (1 b l r rm pm x y z c p)
    from 1(4) 1(5) 1(9) 1(10) 1(6) 1(7) 1(8) 1(11) 1(18) show ?thesis
      by blast
  qed
qed

theorem output_metrics_names_the_logger_witness:
  "dirname ''out/run.json'' = dirname ''out/run.json.bak''
   \<and> split_first ''.json'' (basename ''out/run.json'') = split_first ''.json'' (basename ''out/run.json.bak'')
   \<and> main demo_env (demo_args\<lparr>output_metrics := ''out/run.json''\<rparr>)
       = main demo_env (demo_args\<lparr>output_metrics := ''out/run.json.bak''\<rparr>)
   \<and> outcome demo_env demo_args = Inr ()
   \<and> evaluations Phrase (run_trace demo_env demo_args)
       = [([(1, ''at''), (2, ''on'')], Inr [(''VRDMetric_Phrases_mAP@0.5IOU'', 1)])]
   \<and> metric_events [(''VRDMetric_Phrases_mAP@0.5IOU'', 1)]
       = [LogValue ''eval_epoch.VRDMetric_Phrases_mAP@0.5IOU'' 1
            :: (nat, nat list, nat list) event]
   \<and> LogValue ''eval_epoch.VRDMetric_Phrases_mAP@0.5IOU'' 1 \<in> set (run_trace demo_env demo_args)
   \<and> Flush \<in> set (run_trace demo_env demo_args)"
proof -
  have h: "dirname ''out/run.json'' = dirname ''out/run.json.bak''
     \<and> split_first ''.json'' (basename ''out/run.json'') = split_first ''.json'' (basename ''out/run.json.bak'')"
    by (simp add: dirname_def basename_def)
  have o: "outcome demo_env demo_args = Inr ()"
    by (simp add: outcome_def demo_run)
  have v: "evaluations Phrase (run_trace demo_env demo_args)
       = [([(1, ''at''), (2, ''on'')], Inr [(''VRDMetric_Phrases_mAP@0.5IOU'', 1)])]"
    by (simp add: demo_trace evaluations_def)
  have m: "metric_events [(''VRDMetric_Phrases_mAP@0.5IOU'', 1)]
       = [LogValue ''eval_epoch.VRDMetric_Phrases_mAP@0.5IOU'' 1
            :: (nat, nat list, nat list) event]"
    by (simp add: metric_events_def)
  note t = output_metrics_names_the_logger [of _ _ demo_env demo_args]
  from t [THEN conjunct1, THEN mp, OF h]
  have e: "main demo_env (demo_args\<lparr>output_metrics := ''out/run.json''\<rparr>)
       = main demo_env (demo_args\<lparr>output_metrics := ''out/run.json.bak''\<rparr>)" .
  from t [THEN conjunct2, THEN conjunct2, THEN conjunct2, THEN conjunct2, THEN mp, OF o]
  obtain rel pm where
    l: "evaluations Phrase (run_trace demo_env demo_args) = [(rel, Inr pm)]"
      "set (metric_events pm) \<subseteq> set (run_trace demo_env demo_args)"
      "Flush \<in> set (run_trace demo_env demo_args)"
    by (elim exE conjE)
  from l(1) v have "pm = [(''VRDMetric_Phrases_mAP@0.5IOU'', 1)]" by simp
  with l(2) m
  have "LogValue ''eval_epoch.VRDMetric_Phrases_mAP@0.5IOU'' 1 \<in> set (run_trace demo_env demo_args)"
    by simp
  with h e o v m l(3) show ?thesis by blast
qed

subsection \<open>The command line\<close>














subsection \<open>Two runs over the same input\<close>

lemma in_step_bind:
  fixes m1 :: "(('i, 'g, 'p, 's) world, 'a) action"
  assumes "in_step m1 m2" and "\<And>x. in_step (f1 x) (f2 x)"
  shows "in_step (bind m1 f1) (bind m2 f2)"
  unfolding in_step_def
proof (intro allI impI)
  fix w1 w2 :: "('i, 'g, 'p, 's) world"
  assume r: "same_evaluation w1 w2"
  obtain r1 v1 where m1: "m1 w1 = (r1, v1)" by (cases "m1 w1")
  obtain r2 v2 where m2: "m2 w2 = (r2, v2)" by (cases "m2 w2")
  from assms(1) [unfolded in_step_def, rule_format, OF r] m1 m2
  have eq: "r1 = r2" and r': "same_evaluation v1 v2"
    by simp_all
  show "fst (bind m1 f1 w1) = fst (bind m2 f2 w2)
          \<and> same_evaluation (snd (bind m1 f1 w1)) (snd (bind m2 f2 w2))"
  proof (cases r1)
    case (Inl e)
    with eq m1 m2 r' show ?thesis by (auto simp: bind_def)
  next
    case (Inr x)
    with eq m1 m2 assms(2) [of x, unfolded in_step_def, rule_format, OF r'] show ?thesis
      by (auto simp: bind_def)
  qed
qed

lemma in_step_lift: "r1 = r2 \<Longrightarrow> in_step (lift r1) (lift r2)"
  by (simp add: in_step_def lift_def)

lemma in_step_returns: "in_step (returns x) (returns x)"
  by (simp add: in_step_def returns_def)

lemma in_step_foreach:
  "(\<And>x. in_step (b1 x) (b2 x)) \<Longrightarrow> in_step (foreach xs b1) (foreach xs b2)"
  by (induction xs) (auto intro: in_step_returns in_step_bind)

lemma in_step_case_prod:
  "(\<And>a b. in_step (f1 a b) (f2 a b)) \<Longrightarrow> in_step (case_prod f1 x) (case_prod f2 x)"
  by (cases x) simp

lemma evaluation_events_snoc:
  "evaluation_events (tr @ [e]) =
     evaluation_events tr @
       (case e of LoggerCreate d n \<Rightarrow> [] 
        | LogValue n v \<Rightarrow> if n \<noteq> ''eval_epoch.epoch'' then [e] else []
        | _ \<Rightarrow> [e])"
  by (cases e) (simp_all add: evaluation_events_def)

lemma same_evaluation_emit:
  "same_evaluation w1 w2 \<Longrightarrow> same_evaluation (emit e w1) (emit e w2)"
  by (simp add: same_evaluation_def emit_def evaluation_events_snoc)

lemma same_evaluation_set:
  "same_evaluation w1 w2 \<Longrightarrow> same_evaluation (set_evaluator pr s w1) (set_evaluator pr s w2)"
  by (cases pr) (simp_all add: same_evaluation_def set_evaluator_def)

lemma same_evaluation_evaluator:
  "same_evaluation w1 w2 \<Longrightarrow> evaluator pr w1 = evaluator pr w2"
  by (cases pr) (simp_all add: same_evaluation_def evaluator_def)

lemma in_step_Logger_message: "in_step (Logger_message m) (Logger_message m)"
  by (simp add: in_step_def Logger_message_def same_evaluation_emit)

lemma in_step_Logger_flush: "in_step Logger_flush Logger_flush"
  by (simp add: in_step_def Logger_flush_def same_evaluation_emit)

lemma same_evaluation_values:
  "same_evaluation w1 w2 \<Longrightarrow>
   same_evaluation (w1\<lparr>logger_values := v1\<rparr>) (w2\<lparr>logger_values := v2\<rparr>)"
  by (simp add: same_evaluation_def)

lemma in_step_log_value: "in_step (log_value n v) (log_value n v)"
  by (simp add: in_step_def log_value_def same_evaluation_emit same_evaluation_values)

lemma in_step_log_metrics: "in_step (log_metrics ms) (log_metrics ms)"
  unfolding log_metrics_def
  by (intro in_step_foreach in_step_case_prod in_step_log_value)

lemma in_step_Logger_create:
  assumes "logger_load env1 d1 n1 = Inr v1" "logger_load env2 d2 n2 = Inr v2"
  shows "in_step (Logger_create env1 d1 n1) (Logger_create env2 d2 n2)"
  using assms
  by (auto simp: in_step_def Logger_create_def same_evaluation_def emit_def evaluation_events_snoc)

lemma in_step_construct:
  "new_evaluator env1 = new_evaluator env2 \<Longrightarrow>
   in_step (construct_evaluator env1 pr) (construct_evaluator env2 pr)"
  by (simp add: in_step_def construct_evaluator_def same_evaluation_set)

lemma in_step_add_ground_truth:
  fixes env1 :: "('i, 'r, 'g, 'p, 's) env"
  assumes "add_single_ground_truth_image_info env1 = add_single_ground_truth_image_info env2"
  shows "in_step (call_add_ground_truth env1 pr i g) (call_add_ground_truth env2 pr i g)"
  unfolding in_step_def
proof (intro allI impI)
  fix w1 w2 :: "('i, 'g, 'p, 's) world"
  assume r: "same_evaluation w1 w2"
  then have "evaluator pr w1 = evaluator pr w2" by (rule same_evaluation_evaluator)
  with assms r show "fst (call_add_ground_truth env1 pr i g w1) = fst (call_add_ground_truth env2 pr i g w2)
     \<and> same_evaluation (snd (call_add_ground_truth env1 pr i g w1))
         (snd (call_add_ground_truth env2 pr i g w2))"
    by (auto simp: call_add_ground_truth_def same_evaluation_emit same_evaluation_set
          split: sum.splits)
qed

lemma in_step_add_detected:
  fixes env1 :: "('i, 'r, 'g, 'p, 's) env"
  assumes "add_single_detected_image_info env1 = add_single_detected_image_info env2"
  shows "in_step (call_add_detected env1 pr i p) (call_add_detected env2 pr i p)"
  unfolding in_step_def
proof (intro allI impI)
  fix w1 w2 :: "('i, 'g, 'p, 's) world"
  assume r: "same_evaluation w1 w2"
  then have "evaluator pr w1 = evaluator pr w2" by (rule same_evaluation_evaluator)
  with assms r show "fst (call_add_detected env1 pr i p w1) = fst (call_add_detected env2 pr i p w2)
     \<and> same_evaluation (snd (call_add_detected env1 pr i p w1))
         (snd (call_add_detected env2 pr i p w2))"
    by (auto simp: call_add_detected_def same_evaluation_emit same_evaluation_set
          split: sum.splits)
qed

lemma in_step_evaluate:
  fixes env1 :: "('i, 'r, 'g, 'p, 's) env"
  assumes "evaluate env1 = evaluate env2"
  shows "in_step (call_evaluate env1 pr rel) (call_evaluate env2 pr rel)"
  unfolding in_step_def
proof (intro allI impI)
  fix w1 w2 :: "('i, 'g, 'p, 's) world"
  assume r: "same_evaluation w1 w2"
  then have "evaluator pr w1 = evaluator pr w2" by (rule same_evaluation_evaluator)
  with assms r show "fst (call_evaluate env1 pr rel w1) = fst (call_evaluate env2 pr rel w2)
     \<and> same_evaluation (snd (call_evaluate env1 pr rel w1)) (snd (call_evaluate env2 pr rel w2))"
    by (simp add: call_evaluate_def Let_def same_evaluation_emit)
qed

lemma in_step_ingest_groundtruth:
  assumes "build_groundtruth_vrd_dictionary env1 = build_groundtruth_vrd_dictionary env2"
    "add_single_ground_truth_image_info env1 = add_single_ground_truth_image_info env2"
  shows "in_step (ingest_groundtruth env1 c r x) (ingest_groundtruth env2 c r x)"
  unfolding ingest_groundtruth_def
  by (intro in_step_case_prod in_step_bind in_step_lift in_step_add_ground_truth)
     (simp_all add: assms)

lemma in_step_ingest_predictions:
  assumes "build_predictions_vrd_dictionary env1 = build_predictions_vrd_dictionary env2"
    "add_single_detected_image_info env1 = add_single_detected_image_info env2"
  shows "in_step (ingest_predictions env1 c r x) (ingest_predictions env2 c r x)"
  unfolding ingest_predictions_def
  by (intro in_step_case_prod in_step_bind in_step_lift in_step_add_detected)
     (simp_all add: assms)

text \<open>From the logging of the score on, the two runs log different epochs and nothing else differs.\<close>

lemma in_step_epoch:
  "in_step
     (bind (log_value ''eval_epoch.score'' s) (\<lambda>_.
      bind (Logger_values ''eval_epoch.score'') (\<lambda>scores.
      bind (log_value ''eval_epoch.epoch'' (of_int (int (length scores) - 1))) (\<lambda>_.
      bind Logger_flush (\<lambda>_.
      Logger_message ''End evaluation'')))))
     (bind (log_value ''eval_epoch.score'' s) (\<lambda>_.
      bind (Logger_values ''eval_epoch.score'') (\<lambda>scores.
      bind (log_value ''eval_epoch.epoch'' (of_int (int (length scores) - 1))) (\<lambda>_.
      bind Logger_flush (\<lambda>_.
      Logger_message ''End evaluation'')))))"
  by (simp add: in_step_def bind_def log_value_def Logger_values_def Logger_flush_def
        Logger_message_def getitem_def dict_get_dict_set emit_def same_evaluation_def
        evaluation_events_snoc evaluation_events_def)

lemma in_step_report: "in_step (report rm pm) (report rm pm)"
  unfolding report_def
  by (intro in_step_bind in_step_log_metrics in_step_lift in_step_epoch refl)

lemma in_step_main:
  assumes files:
      "read_csv env1 (input_annotations_boxes a1) = read_csv env2 (input_annotations_boxes a2)"
      "read_csv env1 (input_annotations_labels a1) = read_csv env2 (input_annotations_labels a2)"
      "read_csv env1 (input_predictions a1) = read_csv env2 (input_predictions a2)"
      "read_label_map env1 (input_class_labelmap a1) = read_label_map env2 (input_class_labelmap a2)"
      "read_label_map env1 (input_relationship_labelmap a1)
         = read_label_map env2 (input_relationship_labelmap a2)"
    and code:
      "build_groundtruth_vrd_dictionary env1 = build_groundtruth_vrd_dictionary env2"
      "build_predictions_vrd_dictionary env1 = build_predictions_vrd_dictionary env2"
      "new_evaluator env1 = new_evaluator env2"
      "add_single_ground_truth_image_info env1 = add_single_ground_truth_image_info env2"
      "add_single_detected_image_info env1 = add_single_detected_image_info env2"
      "evaluate env1 = evaluate env2"
    and loggers:
      "logger_load env1 (dirname (output_metrics a1))
         (split_first ''.json'' (basename (output_metrics a1))) = Inr v1"
      "logger_load env2 (dirname (output_metrics a2))
         (split_first ''.json'' (basename (output_metrics a2))) = Inr v2"
  shows "in_step (main env1 a1) (main env2 a2)"
proof -
  have maps: "load_labelmap (read_label_map env1) (input_class_labelmap a1)
       = load_labelmap (read_label_map env2) (input_class_labelmap a2)"
    "load_labelmap (read_label_map env1) (input_relationship_labelmap a1)
       = load_labelmap (read_label_map env2) (input_relationship_labelmap a2)"
    by (simp_all add: load_labelmap_def files)
  have pro: "in_step (prologue env1 a1) (prologue env2 a2)"
    unfolding prologue_def
    by (intro in_step_bind in_step_Logger_create [OF loggers] in_step_Logger_message
          in_step_lift in_step_construct in_step_returns)
       (simp_all add: files maps code)
  have pre: "in_step (load_predictions env1 a1) (load_predictions env2 a2)"
    unfolding load_predictions_def
    by (intro in_step_bind in_step_lift) (simp_all add: files)
  show ?thesis
    unfolding main_phases
    by (intro in_step_bind in_step_case_prod in_step_foreach pro pre in_step_report
          in_step_ingest_groundtruth in_step_ingest_predictions in_step_evaluate code)
qed

lemma logged_evaluation_events:
  "n \<noteq> ''eval_epoch.epoch'' \<Longrightarrow> logged n (evaluation_events tr) = logged n tr"
  by (induction tr) (auto simp: logged_def evaluation_events_def split: event.splits)


lemma same_evaluation_initial:
  "new_evaluator env1 = new_evaluator env2 \<Longrightarrow>
   same_evaluation (initial_world env1) (initial_world env2)"
  by (simp add: same_evaluation_def initial_world_def)

text \<open>
  C5: two runs of \<^verbatim>\<open>main\<close> whose five input files have the same contents, with the same
  builders and evaluators, and whose Loggers could both be created, end alike: the same
  outcome, the same calls on the evaluators with the same results, and the same values
  logged under every name but the epoch counter, the composite score among them. The
  output path and what the log held before have no influence. (The collaborators are
  functions of their inputs in this model, and the metric values are exact reals.)
\<close>

theorem same_input_same_metrics:
  assumes "read_csv env1 (input_annotations_boxes a1) = read_csv env2 (input_annotations_boxes a2)"
      "read_csv env1 (input_annotations_labels a1) = read_csv env2 (input_annotations_labels a2)"
      "read_csv env1 (input_predictions a1) = read_csv env2 (input_predictions a2)"
      "read_label_map env1 (input_class_labelmap a1) = read_label_map env2 (input_class_labelmap a2)"
      "read_label_map env1 (input_relationship_labelmap a1)
         = read_label_map env2 (input_relationship_labelmap a2)"
    and "build_groundtruth_vrd_dictionary env1 = build_groundtruth_vrd_dictionary env2"
      "build_predictions_vrd_dictionary env1 = build_predictions_vrd_dictionary env2"
      "new_evaluator env1 = new_evaluator env2"
      "add_single_ground_truth_image_info env1 = add_single_ground_truth_image_info env2"
      "add_single_detected_image_info env1 = add_single_detected_image_info env2"
      "evaluate env1 = evaluate env2"
    and "logger_load env1 (dirname (output_metrics a1))
         (split_first ''.json'' (basename (output_metrics a1))) = Inr v1"
      "logger_load env2 (dirname (output_metrics a2))
         (split_first ''.json'' (basename (output_metrics a2))) = Inr v2"
  shows "outcome env1 a1 = outcome env2 a2
     \<and> evaluation_events (run_trace env1 a1) = evaluation_events (run_trace env2 a2)
     \<and> logged ''eval_epoch.score'' (run_trace env1 a1) = logged ''eval_epoch.score'' (run_trace env2 a2)
     \<and> (\<forall>n. n \<noteq> ''eval_epoch.epoch'' \<longrightarrow>
           logged n (run_trace env1 a1) = logged n (run_trace env2 a2))"
proof -
  have step: "in_step (main env1 a1) (main env2 a2)"
    using assms by (rule in_step_main)
  have init: "same_evaluation (initial_world env1) (initial_world env2)"
    using assms(8) by (rule same_evaluation_initial)
  from step [unfolded in_step_def, rule_format, OF init]
  have o: "outcome env1 a1 = outcome env2 a2"
    and e: "evaluation_events (run_trace env1 a1) = evaluation_events (run_trace env2 a2)"
    by (simp_all add: outcome_def run_trace_def same_evaluation_def)
  have l: "logged n (run_trace env1 a1) = logged n (run_trace env2 a2)"
    if "n \<noteq> ''eval_epoch.epoch''" for n
    using logged_evaluation_events [OF that, of "run_trace env1 a1"]
      logged_evaluation_events [OF that, of "run_trace env2 a2"] e by simp
  from o e l [of "''eval_epoch.score''"] l show ?thesis by simp
qed

lemma second_demo_env_simps:
  "logger_load second_demo_env = (\<lambda>d n. Inr [(''eval_epoch.score'', [1 / 2])])"
  "read_csv second_demo_env = read_csv demo_env"
  "read_label_map second_demo_env = read_label_map demo_env"
  "build_groundtruth_vrd_dictionary second_demo_env = build_groundtruth_vrd_dictionary demo_env"
  "build_predictions_vrd_dictionary second_demo_env = build_predictions_vrd_dictionary demo_env"
  "new_evaluator second_demo_env = new_evaluator demo_env"
  "add_single_ground_truth_image_info second_demo_env = add_single_ground_truth_image_info demo_env"
  "add_single_detected_image_info second_demo_env = add_single_detected_image_info demo_env"
  "evaluate second_demo_env = evaluate demo_env"
  by (simp_all add: second_demo_env_def)

lemma second_demo_epoch:
  "logged ''eval_epoch.epoch'' (run_trace second_demo_env second_demo_args) = [1]"
  unfolding run_trace_def main_def second_demo_args_def demo_args_def initial_world_def
  by (simp add: run_simps second_demo_env_simps demo_env_simps demo_groups demo_metrics_def
        proj_simps logged_Cons_other kind_simps
      cong: bind_run_cong bind_cong)

theorem same_input_same_metrics_witness:
  "outcome demo_env demo_args = outcome second_demo_env second_demo_args
   \<and> logged ''eval_epoch.score'' (run_trace demo_env demo_args)
       = logged ''eval_epoch.score'' (run_trace second_demo_env second_demo_args)
   \<and> logged ''eval_epoch.score'' (run_trace demo_env demo_args) = [1]
   \<and> logged ''eval_epoch.epoch'' (run_trace demo_env demo_args) = [0]
   \<and> logged ''eval_epoch.epoch'' (run_trace second_demo_env second_demo_args) = [1]"
proof -
  have l1: "logger_load demo_env (dirname (output_metrics demo_args))
         (split_first ''.json'' (basename (output_metrics demo_args))) = Inr []"
    by (simp add: demo_env_simps)
  have l2: "logger_load second_demo_env (dirname (output_metrics second_demo_args))
         (split_first ''.json'' (basename (output_metrics second_demo_args)))
       = Inr [(''eval_epoch.score'', [1 / 2])]"
    by (simp add: second_demo_env_simps)
  have t: "outcome demo_env demo_args = outcome second_demo_env second_demo_args
     \<and> evaluation_events (run_trace demo_env demo_args)
         = evaluation_events (run_trace second_demo_env second_demo_args)
     \<and> logged ''eval_epoch.score'' (run_trace demo_env demo_args)
         = logged ''eval_epoch.score'' (run_trace second_demo_env second_demo_args)
     \<and> (\<forall>n. n \<noteq> ''eval_epoch.epoch'' \<longrightarrow>
           logged n (run_trace demo_env demo_args)
             = logged n (run_trace second_demo_env second_demo_args))"
    by (rule same_input_same_metrics [OF _ _ _ _ _ _ _ _ _ _ _ l1 l2])
       (simp_all add: second_demo_env_simps second_demo_args_def)
  have v: "logged ''eval_epoch.score'' (run_trace demo_env demo_args) = [1]"
    "logged ''eval_epoch.epoch'' (run_trace demo_env demo_args) = [0]"
    by (simp_all add: demo_trace logged_def)
  from t v second_demo_epoch show ?thesis by blast
qed

end
